theory Spec2Isabelle
  imports Main "HOL-Library.Sublist"
begin

section \<open>Data of the upgrade script (deployment/7\_upgrade\_1\_6.js)\<close>

text \<open>
  JavaScript values that travel through the script as configuration entries and call
  arguments. A configuration section is an object read by property name; a property that
  is not there reads as \<open>Undefined\<close>.
\<close>

datatype val =
    Undefined
  | Str string
  | Num nat
  | Bool bool
  | Arr "val list"
  | Obj "(string \<times> val) list"

type_synonym obj = "string \<Rightarrow> val"

text \<open>Module descriptor \<^verbatim>\<open>{ name, address }\<close> of a version manifest.\<close>

record module =
  name :: string
  address :: string

text \<open>A published version manifest, as \<^verbatim>\<open>versionUploader.load\<close> returns it.\<close>

record version =
  version :: string
  createdAt :: nat
  modules :: "module list"
  fingerprint :: string

text \<open>
  The object \<^verbatim>\<open>newVersion\<close>: it starts as \<^verbatim>\<open>{}\<close>, and each field is absent
  (\<open>None\<close>) until the script assigns it. \<^verbatim>\<open>semver.inc\<close> may answer \<^verbatim>\<open>null\<close>, which is the
  inner \<open>None\<close> of the version field.
\<close>

record new_version =
  nv_version :: "string option option"
  nv_createdAt :: "nat option"
  nv_modules :: "module list option"
  nv_fingerprint :: "string option"

definition empty_version :: new_version where
  "empty_version =
     \<lparr>nv_version = None, nv_createdAt = None, nv_modules = None, nv_fingerprint = None\<rparr>"

text \<open>A contract wrapper of the deployer: \<^verbatim>\<open>contractAddress\<close> and \<^verbatim>\<open>_contract.contractName\<close>.\<close>

record wrapper =
  contractAddress :: string
  contractName :: string

text \<open>The configuration object held by the configurator.\<close>

record config =
  contracts :: obj
  config_modules :: obj
  settings :: obj
  defi_maker :: obj
  defi_uniswap :: obj
  multisig :: obj
  gitHash :: val

text \<open>What \<^verbatim>\<open>manager.setup()\<close> makes available: the configuration and the deployer's
  default gas price and signer.\<close>

record manager =
  mgr_config :: config
  mgr_gasPrice :: val
  mgr_signer :: string

text \<open>\<^verbatim>\<open>new MultisigExecutor(MultiSigWrapper, deploymentWallet, autosign, { gasPrice })\<close>\<close>

record multisigExecutor =
  ms_wallet :: wrapper
  ms_owner :: string
  ms_autosign :: val
  ms_overrides :: val

datatype error = Rejected string | TypeError string

section \<open>Constants of the script\<close>

definition TARGET_VERSION :: string where
  "TARGET_VERSION = ''1.6.0''"

definition MODULES_TO_ENABLE :: "string list" where
  "MODULES_TO_ENABLE = [''ApprovedTransfer'', ''RecoveryManager'', ''MakerV2Manager'', ''TransferManager'']"

definition MODULES_TO_DISABLE :: "string list" where
  "MODULES_TO_DISABLE = [''UniswapManager'']"

definition BACKWARD_COMPATIBILITY :: nat where
  "BACKWARD_COMPATIBILITY = 1"

section \<open>The version diff (lines 167--186)\<close>

text \<open>Lines 170--173: a newly deployed wrapper as a module descriptor.\<close>

definition module_of :: "wrapper \<Rightarrow> module" where
  "module_of w = \<lparr>name = contractName w, address = contractAddress w\<rparr>"

text \<open>
  The branch \<^verbatim>\<open>idx === 0\<close>, lines 168--175, with the two name lists as arguments (the script
  passes \<open>MODULES_TO_DISABLE\<close> and \<open>MODULES_TO_ENABLE\<close>). The result is
  \<open>(toAdd, toRemove, modulesInNewVersion)\<close>.
\<close>

definition newest_diff ::
  "string list \<Rightarrow> string list \<Rightarrow> wrapper list \<Rightarrow> version
     \<Rightarrow> module list \<times> module list \<times> module list" where
  "newest_diff disable enable newModuleWrappers v =
     (let moduleNamesToRemove = disable @ enable;
          toRemove = filter (\<lambda>m. name m \<in> set moduleNamesToRemove) (modules v);
          toAdd = map module_of newModuleWrappers;
          toKeep = filter (\<lambda>m. name m \<notin> set moduleNamesToRemove) (modules v);
          modulesInNewVersion = toKeep @ toAdd
      in (toAdd, toRemove, modulesInNewVersion))"

text \<open>
  The branch \<^verbatim>\<open>idx > 0\<close>, lines 183--185, against the module list stored in
  \<^verbatim>\<open>newVersion.modules\<close>. The result is \<open>(toAdd, toRemove)\<close>.
\<close>

definition older_diff :: "module list \<Rightarrow> version \<Rightarrow> module list \<times> module list" where
  "older_diff newModules v =
     (let toAdd = filter (\<lambda>m. address m \<notin> set (map address (modules v))) newModules;
          toRemove = filter (\<lambda>m. address m \<notin> set (map address newModules)) (modules v)
      in (toAdd, toRemove))"

text \<open>A version and a module list agree on names when no address is listed under one name
  by the version and under another by the list.\<close>

definition names_agree :: "version \<Rightarrow> module list \<Rightarrow> bool" where
  "names_agree v ms \<longleftrightarrow>
     (\<forall>m \<in> set (modules v). \<forall>m' \<in> set ms. address m = address m' \<longrightarrow> name m = name m')"

text \<open>
  Modelled from the spec: \<^verbatim>\<open>utils.versionFingerprint\<close>, which lives in utils/utilities.js and
  is not part of the sources at hand. The spec describes the fingerprint as a content hash
  of the module set and a deterministic function of the (name, address) pairs in
  \<^verbatim>\<open>modules\<close>, the ordering convention being that of the hash. The hash \<open>h\<close> is a
  parameter; it receives the pairs in manifest order.
\<close>

definition versionFingerprint :: "((string \<times> string) list \<Rightarrow> string) \<Rightarrow> module list \<Rightarrow> string" where
  "versionFingerprint h ms = h (map (\<lambda>m. (name m, address m)) ms)"

text \<open>A hash follows the order-independent convention when it only looks at the set of pairs.\<close>

definition order_independent :: "((string \<times> string) list \<Rightarrow> string) \<Rightarrow> bool" where
  "order_independent h \<longleftrightarrow> (\<forall>xs ys. set xs = set ys \<longrightarrow> h xs = h ys)"

section \<open>Effects: collaborators, trace and failure\<close>

text \<open>
  Every operation on an external collaborator is a \<open>call\<close>. The constructors follow the
  script: the deploy manager and its deployer, contract wrappers, the configurator, the ABI
  uploader, the multisig executor and the version uploader; \<^verbatim>\<open>console.warn\<close> and
  \<^verbatim>\<open>childProcess.execSync\<close> are calls too. The five ABI uploads of lines 138--144 are
  issued together and awaited jointly through \<^verbatim>\<open>Promise.all\<close>: they are one call.
\<close>

datatype call =
    ConsoleWarn string
  | ManagerSetup string
  | WrapDeployedContract string val
  | ContractMethod wrapper string "val list"
  | VerboseWaitForTransaction wrapper string string
  | Deploy string val "val list"
  | UpdateModuleAddresses "(string \<times> val) list"
  | UpdateInfrastructureAddresses "(string \<times> val) list"
  | ExecSync string
  | UpdateGitHash string
  | ConfigSave
  | AbiUploadAll "(wrapper \<times> string) list"
  | ExecuteCall multisigExecutor wrapper string "val list"
  | VersionLoad nat
  | VersionUpload new_version

text \<open>An event is a call with its outcome: \<open>None\<close> when it returned, the error when it failed.\<close>

type_synonym event = "call \<times> error option"

record 'w state =
  world :: 'w
  trace :: "event list"

text \<open>
  The collaborators are not part of the script. Their answers are given by an environment
  over a world \<open>'w\<close> of external state: one answer function per result type, each free to
  fail. The environment also holds the clock (milliseconds), the two functions of the
  \<^verbatim>\<open>semver\<close> package the script uses (\<^verbatim>\<open>lt\<close> throws on an invalid version, \<^verbatim>\<open>inc\<close>
  answers \<^verbatim>\<open>null\<close> on one) and the helpers of utils/utilities.js.
\<close>

record 'w env =
  ask_manager :: "call \<Rightarrow> 'w \<Rightarrow> (error + manager) \<times> 'w"
  ask_wrapper :: "call \<Rightarrow> 'w \<Rightarrow> (error + wrapper) \<times> 'w"
  ask_string :: "call \<Rightarrow> 'w \<Rightarrow> (error + string) \<times> 'w"
  ask_unit :: "call \<Rightarrow> 'w \<Rightarrow> (error + unit) \<times> 'w"
  ask_versions :: "call \<Rightarrow> 'w \<Rightarrow> (error + version list) \<times> 'w"
  clock :: "'w \<Rightarrow> nat"
  semver_lt :: "string \<Rightarrow> string \<Rightarrow> error + bool"
  semver_inc :: "string \<Rightarrow> string \<Rightarrow> string option"
  hash :: "(string \<times> string) list \<Rightarrow> string"
  asciiToBytes32 :: "string \<Rightarrow> val"

text \<open>
  A step of the script maps the state to a result and the next state. The script has no
  \<^verbatim>\<open>try\<close>/\<^verbatim>\<open>catch\<close>; sequencing with \<open>bnd\<close> is the only way steps are combined.
\<close>

type_synonym ('w, 'a) prog = "'w state \<Rightarrow> (error + 'a) \<times> 'w state"

definition ret :: "'a \<Rightarrow> ('w, 'a) prog" where
  "ret x s = (Inr x, s)"

definition throw :: "error \<Rightarrow> ('w, 'a) prog" where
  "throw e s = (Inl e, s)"

definition bnd :: "('w, 'a) prog \<Rightarrow> ('a \<Rightarrow> ('w, 'b) prog) \<Rightarrow> ('w, 'b) prog" where
  "bnd m f s = (case m s of (Inl e, s') \<Rightarrow> (Inl e, s') | (Inr x, s') \<Rightarrow> f x s')"

definition outcome :: "error + 'a \<Rightarrow> error option" where
  "outcome r = (case r of Inl e \<Rightarrow> Some e | Inr _ \<Rightarrow> None)"

text \<open>A call on a collaborator: ask the environment, record the event, pass the answer on.\<close>

definition perform :: "(call \<Rightarrow> 'w \<Rightarrow> (error + 'a) \<times> 'w) \<Rightarrow> call \<Rightarrow> ('w, 'a) prog" where
  "perform ask c s =
     (case ask c (world s) of
        (r, w') \<Rightarrow> (r, s\<lparr>world := w', trace := trace s @ [(c, outcome r)]\<rparr>))"

text \<open>A local operation that cannot fail: only the event is recorded.\<close>

definition emit :: "call \<Rightarrow> ('w, unit) prog" where
  "emit c s = (Inr (), s\<lparr>trace := trace s @ [(c, None)]\<rparr>)"

definition now :: "'w env \<Rightarrow> ('w, nat) prog" where
  "now env s = (Inr (clock env (world s)), s)"

definition lift :: "error + 'a \<Rightarrow> ('w, 'a) prog" where
  "lift r = (case r of Inl e \<Rightarrow> throw e | Inr x \<Rightarrow> ret x)"

subsection \<open>The collaborators' operations\<close>

definition console_warn :: "string \<Rightarrow> ('w, unit) prog" where
  "console_warn line = emit (ConsoleWarn line)"

definition manager_setup :: "'w env \<Rightarrow> string \<Rightarrow> ('w, manager) prog" where
  "manager_setup env network = perform (ask_manager env) (ManagerSetup network)"

definition wrapDeployedContract :: "'w env \<Rightarrow> string \<Rightarrow> val \<Rightarrow> ('w, wrapper) prog" where
  "wrapDeployedContract env contract addr = perform (ask_wrapper env) (WrapDeployedContract contract addr)"

definition deployer_deploy :: "'w env \<Rightarrow> string \<Rightarrow> val \<Rightarrow> val list \<Rightarrow> ('w, wrapper) prog" where
  "deployer_deploy env contract libraries args = perform (ask_wrapper env) (Deploy contract libraries args)"

definition contract_method :: "'w env \<Rightarrow> wrapper \<Rightarrow> string \<Rightarrow> val list \<Rightarrow> ('w, string) prog" where
  "contract_method env w method args = perform (ask_string env) (ContractMethod w method args)"

definition verboseWaitForTransaction :: "'w env \<Rightarrow> wrapper \<Rightarrow> string \<Rightarrow> string \<Rightarrow> ('w, unit) prog" where
  "verboseWaitForTransaction env w tx msg = perform (ask_unit env) (VerboseWaitForTransaction w tx msg)"

definition execSync :: "'w env \<Rightarrow> string \<Rightarrow> ('w, string) prog" where
  "execSync env command = perform (ask_string env) (ExecSync command)"

definition configurator_save :: "'w env \<Rightarrow> ('w, unit) prog" where
  "configurator_save env = perform (ask_unit env) ConfigSave"

definition abiUploader_upload_all :: "'w env \<Rightarrow> (wrapper \<times> string) list \<Rightarrow> ('w, unit) prog" where
  "abiUploader_upload_all env uploads = perform (ask_unit env) (AbiUploadAll uploads)"

definition executeCall ::
  "'w env \<Rightarrow> multisigExecutor \<Rightarrow> wrapper \<Rightarrow> string \<Rightarrow> val list \<Rightarrow> ('w, unit) prog" where
  "executeCall env executor target method params =
     perform (ask_unit env) (ExecuteCall executor target method params)"

definition versionUploader_load :: "'w env \<Rightarrow> nat \<Rightarrow> ('w, version list) prog" where
  "versionUploader_load env n = perform (ask_versions env) (VersionLoad n)"

definition versionUploader_upload :: "'w env \<Rightarrow> new_version \<Rightarrow> ('w, unit) prog" where
  "versionUploader_upload env v = perform (ask_unit env) (VersionUpload v)"

text \<open>
  Modelled from the spec: the configurator's update operations (utils/configurator.js is not
  part of the sources at hand). The spec: the configurator holds the mutable configuration
  object and exposes update operations for module addresses, for infrastructure addresses
  and for a revision-hash stamp. Each one writes the given entries into its section of the
  configuration and is recorded as an event.
\<close>

definition assign :: "obj \<Rightarrow> (string \<times> val) list \<Rightarrow> obj" where
  "assign ob entries = fold (\<lambda>(k, v) f. f(k := v)) entries ob"

definition updateModuleAddresses :: "config \<Rightarrow> (string \<times> val) list \<Rightarrow> ('w, config) prog" where
  "updateModuleAddresses cfg entries =
     bnd (emit (UpdateModuleAddresses entries))
       (\<lambda>_. ret (cfg\<lparr>config_modules := assign (config_modules cfg) entries\<rparr>))"

definition updateInfrastructureAddresses :: "config \<Rightarrow> (string \<times> val) list \<Rightarrow> ('w, config) prog" where
  "updateInfrastructureAddresses cfg entries =
     bnd (emit (UpdateInfrastructureAddresses entries))
       (\<lambda>_. ret (cfg\<lparr>contracts := assign (contracts cfg) entries\<rparr>))"

definition updateGitHash :: "config \<Rightarrow> string \<Rightarrow> ('w, config) prog" where
  "updateGitHash cfg h =
     bnd (emit (UpdateGitHash h)) (\<lambda>_. ret (cfg\<lparr>gitHash := Str h\<rparr>))"

subsection \<open>JavaScript operators used by the script\<close>

text \<open>\<^verbatim>\<open>a || b\<close>: \<open>b\<close> when \<open>a\<close> is falsy.\<close>

fun falsy :: "val \<Rightarrow> bool" where
  "falsy Undefined = True"
| "falsy (Str s) = (s = [])"
| "falsy (Num n) = (n = 0)"
| "falsy (Bool b) = (\<not> b)"
| "falsy (Arr _) = False"
| "falsy (Obj _) = False"

definition js_or :: "val \<Rightarrow> val \<Rightarrow> val" where
  "js_or a b = (if falsy a then b else a)"

text \<open>\<^verbatim>\<open>.replace(/\n$/, "")\<close>: one line feed at the very end is dropped.\<close>

definition strip_newline :: "string \<Rightarrow> string" where
  "strip_newline s = (if s \<noteq> [] \<and> last s = CHR 0x0A then butlast s else s)"

text \<open>A template literal prints an unassigned variable as \<^verbatim>\<open>undefined\<close>.\<close>

definition template :: "string option \<Rightarrow> string" where
  "template x = (case x of None \<Rightarrow> ''undefined'' | Some s \<Rightarrow> s)"

section \<open>The script\<close>

subsection \<open>Lines 25--29: the warning\<close>

definition warn_network :: "string \<Rightarrow> ('w, unit) prog" where
  "warn_network network =
     (if network \<notin> set [''kovan'', ''kovan-fork'', ''staging'', ''prod''] then
        bnd (console_warn ''------------------------------------------------------------------------'') (\<lambda>_.
        bnd (console_warn (''WARNING: The MakerManagerV2 module is not fully functional on '' @ network)) (\<lambda>_.
        console_warn ''------------------------------------------------------------------------''))
      else ret ())"

subsection \<open>Lines 38--51: setup\<close>

record ctx =
  ctx_config :: config
  ctx_gasPrice :: val
  ctx_ModuleRegistryWrapper :: wrapper
  ctx_multisigExecutor :: multisigExecutor

definition setup_context :: "'w env \<Rightarrow> string \<Rightarrow> ('w, ctx) prog" where
  "setup_context env network =
     bnd (manager_setup env network) (\<lambda>manager.
     let config = mgr_config manager;
         gasPrice = mgr_gasPrice manager;
         deploymentWallet = mgr_signer manager
     in
     bnd (wrapDeployedContract env ''ModuleRegistry'' (contracts config ''ModuleRegistry'')) (\<lambda>ModuleRegistryWrapper.
     bnd (wrapDeployedContract env ''MultiSigWallet'' (contracts config ''MultiSigWallet'')) (\<lambda>MultiSigWrapper.
     let multisigExecutor =
           \<lparr>ms_wallet = MultiSigWrapper, ms_owner = deploymentWallet,
            ms_autosign = multisig config ''autosign'', ms_overrides = Obj [(''gasPrice'', gasPrice)]\<rparr>
     in
     ret \<lparr>ctx_config = config, ctx_gasPrice = gasPrice,
          ctx_ModuleRegistryWrapper = ModuleRegistryWrapper,
          ctx_multisigExecutor = multisigExecutor\<rparr>)))"

subsection \<open>Lines 58--66: infrastructure contracts\<close>

definition deploy_infrastructure :: "'w env \<Rightarrow> ctx \<Rightarrow> ('w, wrapper \<times> wrapper) prog" where
  "deploy_infrastructure env c =
     (let config = ctx_config c; gasPrice = ctx_gasPrice c in
     bnd (wrapDeployedContract env ''ScdMcdMigration'' (defi_maker config ''migration'')) (\<lambda>ScdMcdMigrationWrapper.
     bnd (contract_method env ScdMcdMigrationWrapper ''vat'' []) (\<lambda>vatAddress.
     bnd (deployer_deploy env ''MakerRegistry'' (Obj []) [Str vatAddress]) (\<lambda>MakerRegistryWrapper.
     bnd (contract_method env ScdMcdMigrationWrapper ''wethJoin'' []) (\<lambda>wethJoinAddress.
     bnd (contract_method env MakerRegistryWrapper ''addCollateral''
            [Str wethJoinAddress, Obj [(''gasPrice'', gasPrice)]]) (\<lambda>addCollateralTransaction.
     bnd (verboseWaitForTransaction env MakerRegistryWrapper addCollateralTransaction
            (''Adding join adapter '' @ wethJoinAddress @ '' to the MakerRegistry'')) (\<lambda>_.
     bnd (contract_method env MakerRegistryWrapper ''changeOwner''
            [contracts config ''MultiSigWallet'', Obj [(''gasPrice'', gasPrice)]]) (\<lambda>changeMakerRegistryOwnerTx.
     bnd (verboseWaitForTransaction env MakerRegistryWrapper changeMakerRegistryOwnerTx
            ''Set the MultiSig as the owner of the MakerRegistry'') (\<lambda>_.
     bnd (wrapDeployedContract env ''TokenPriceProvider'' (contracts config ''TokenPriceProvider'')) (\<lambda>TokenPriceProviderWrapper.
     ret (MakerRegistryWrapper, TokenPriceProviderWrapper)))))))))))"

subsection \<open>Lines 72--117: the four new modules\<close>

text \<open>The result is the four wrappers, in the order of the four \<^verbatim>\<open>push\<close> calls.\<close>

definition deploy_modules ::
  "'w env \<Rightarrow> string \<Rightarrow> ctx \<Rightarrow> wrapper \<Rightarrow> wrapper
     \<Rightarrow> ('w, wrapper \<times> wrapper \<times> wrapper \<times> wrapper) prog" where
  "deploy_modules env network c MakerRegistryWrapper TokenPriceProviderWrapper =
     (let config = ctx_config c in
     bnd (deployer_deploy env ''ApprovedTransfer'' (Obj [])
            [contracts config ''ModuleRegistry'',
             config_modules config ''GuardianStorage'']) (\<lambda>ApprovedTransferWrapper.
     bnd (deployer_deploy env ''RecoveryManager'' (Obj [])
            [contracts config ''ModuleRegistry'',
             config_modules config ''GuardianStorage'',
             js_or (settings config ''recoveryPeriod'') (Num 0),
             js_or (settings config ''lockPeriod'') (Num 0),
             js_or (settings config ''securityPeriod'') (Num 0),
             js_or (settings config ''securityWindow'') (Num 0)]) (\<lambda>RecoveryManagerWrapper.
     bnd (deployer_deploy env ''MakerV2Manager'' (Obj [])
            [contracts config ''ModuleRegistry'',
             config_modules config ''GuardianStorage'',
             defi_maker config ''migration'',
             defi_maker config ''pot'',
             defi_maker config ''jug'',
             Str (contractAddress MakerRegistryWrapper),
             defi_uniswap config ''factory'']) (\<lambda>MakerV2ManagerWrapper.
     bnd (deployer_deploy env ''TransferManager'' (Obj [])
            [contracts config ''ModuleRegistry'',
             config_modules config ''TransferStorage'',
             config_modules config ''GuardianStorage'',
             Str (contractAddress TokenPriceProviderWrapper),
             js_or (settings config ''securityPeriod'') (Num 0),
             js_or (settings config ''securityWindow'') (Num 0),
             js_or (settings config ''defaultLimit'') (Str ''1000000000000000000''),
             (if network \<in> set [''test'', ''staging'', ''prod'']
              then config_modules config ''TransferManager''
              else Str ''0x0000000000000000000000000000000000000000'')]) (\<lambda>TransferManagerWrapper.
     ret (ApprovedTransferWrapper, RecoveryManagerWrapper, MakerV2ManagerWrapper,
          TransferManagerWrapper))))))"

subsection \<open>Lines 123--144: configuration and ABIs\<close>

text \<open>
  The configuration is passed in, updated three times and passed back, as the in-place
  mutation of the source leaves it.
\<close>

definition publish_config ::
  "'w env \<Rightarrow> config \<Rightarrow> wrapper \<Rightarrow> wrapper \<Rightarrow> wrapper \<Rightarrow> wrapper \<Rightarrow> wrapper
     \<Rightarrow> ('w, config) prog" where
  "publish_config env config ApprovedTransferWrapper RecoveryManagerWrapper MakerV2ManagerWrapper
       TransferManagerWrapper MakerRegistryWrapper =
     (bnd (updateModuleAddresses config
            [(''ApprovedTransfer'', Str (contractAddress ApprovedTransferWrapper)),
             (''RecoveryManager'', Str (contractAddress RecoveryManagerWrapper)),
             (''MakerV2Manager'', Str (contractAddress MakerV2ManagerWrapper)),
             (''TransferManager'', Str (contractAddress TransferManagerWrapper))]) (\<lambda>config.
     bnd (updateInfrastructureAddresses config
            [(''MakerRegistry'', Str (contractAddress MakerRegistryWrapper))]) (\<lambda>config.
     bnd (execSync env ''git rev-parse HEAD'') (\<lambda>out.
     let gitHash = strip_newline out in
     bnd (updateGitHash config gitHash) (\<lambda>config.
     bnd (configurator_save env) (\<lambda>_.
     bnd (abiUploader_upload_all env
            [(ApprovedTransferWrapper, ''modules''),
             (RecoveryManagerWrapper, ''modules''),
             (MakerV2ManagerWrapper, ''modules''),
             (TransferManagerWrapper, ''modules''),
             (MakerRegistryWrapper, ''contracts'')]) (\<lambda>_.
     ret config)))))))"

subsection \<open>Lines 150--154: registration of the new modules\<close>

fun register_modules :: "'w env \<Rightarrow> ctx \<Rightarrow> wrapper list \<Rightarrow> ('w, unit) prog" where
  "register_modules env c [] = ret ()"
| "register_modules env c (wrapper # rest) =
     bnd (executeCall env (ctx_multisigExecutor c) (ctx_ModuleRegistryWrapper c) ''registerModule''
            [Str (contractAddress wrapper), asciiToBytes32 env (contractName wrapper)])
       (\<lambda>_. register_modules env c rest)"

subsection \<open>Lines 161--202: upgraders\<close>

text \<open>The variables the loop assigns: \<^verbatim>\<open>newVersion\<close> and \<^verbatim>\<open>fingerprint\<close>.\<close>

record loop_state =
  ls_newVersion :: new_version
  ls_fingerprint :: "string option"

definition initial_loop_state :: loop_state where
  "initial_loop_state = \<lparr>ls_newVersion = empty_version, ls_fingerprint = None\<rparr>"

text \<open>Lines 168--180, the branch \<^verbatim>\<open>idx === 0\<close>. It yields \<open>(toAdd, toRemove)\<close> and the
  variables as assigned.\<close>

definition newest_branch ::
  "'w env \<Rightarrow> wrapper list \<Rightarrow> version \<Rightarrow> loop_state
     \<Rightarrow> ('w, module list \<times> module list \<times> loop_state) prog" where
  "newest_branch env newModuleWrappers v ls =
     (case newest_diff MODULES_TO_DISABLE MODULES_TO_ENABLE newModuleWrappers v of
        (toAdd, toRemove, modulesInNewVersion) \<Rightarrow>
     let fp = versionFingerprint (hash env) modulesInNewVersion in
     bnd (lift (semver_lt env (version v) TARGET_VERSION)) (\<lambda>lower.
     let newVersion_version =
           (if lower then Some TARGET_VERSION else semver_inc env (version v) ''patch'') in
     bnd (now env) (\<lambda>millis.
     ret (toAdd, toRemove,
          \<lparr>ls_newVersion = (ls_newVersion ls)
             \<lparr>nv_version := Some newVersion_version,
              nv_createdAt := Some (millis div 1000),
              nv_modules := Some modulesInNewVersion,
              nv_fingerprint := Some fp\<rparr>,
           ls_fingerprint = Some fp\<rparr>))))"

text \<open>Lines 183--185, the branch \<^verbatim>\<open>idx > 0\<close>. Reading \<^verbatim>\<open>newVersion.modules\<close> while it is
  unassigned raises a TypeError.\<close>

definition older_branch ::
  "version \<Rightarrow> loop_state \<Rightarrow> ('w, module list \<times> module list \<times> loop_state) prog" where
  "older_branch v ls =
     (case nv_modules (ls_newVersion ls) of
        None \<Rightarrow> throw (TypeError ''Cannot read property of undefined'')
      | Some newModules \<Rightarrow>
          (case older_diff newModules v of (toAdd, toRemove) \<Rightarrow> ret (toAdd, toRemove, ls)))"

text \<open>Lines 188--201: name, deployment and registration of the upgrader.\<close>

definition upgrader_name :: "version \<Rightarrow> loop_state \<Rightarrow> string" where
  "upgrader_name v ls = fingerprint v @ ''_'' @ template (ls_fingerprint ls)"

definition deploy_upgrader ::
  "'w env \<Rightarrow> ctx \<Rightarrow> string \<Rightarrow> module list \<Rightarrow> module list \<Rightarrow> ('w, unit) prog" where
  "deploy_upgrader env c upgraderName toRemove toAdd =
     bnd (deployer_deploy env ''SimpleUpgrader'' (Obj [])
            [contracts (ctx_config c) ''ModuleRegistry'',
             Arr (map (\<lambda>m. Str (address m)) toRemove),
             Arr (map (\<lambda>m. Str (address m)) toAdd)]) (\<lambda>UpgraderWrapper.
     bnd (executeCall env (ctx_multisigExecutor c) (ctx_ModuleRegistryWrapper c) ''registerModule''
            [Str (contractAddress UpgraderWrapper), asciiToBytes32 env upgraderName]) (\<lambda>_.
     executeCall env (ctx_multisigExecutor c) (ctx_ModuleRegistryWrapper c) ''registerUpgrader''
            [Str (contractAddress UpgraderWrapper), asciiToBytes32 env upgraderName]))"

text \<open>One pass of the loop body, lines 164--201.\<close>

definition upgrade_version ::
  "'w env \<Rightarrow> ctx \<Rightarrow> wrapper list \<Rightarrow> nat \<Rightarrow> version \<Rightarrow> loop_state \<Rightarrow> ('w, loop_state) prog" where
  "upgrade_version env c newModuleWrappers idx v ls =
     bnd (if idx = 0 then newest_branch env newModuleWrappers v ls else older_branch v ls)
       (\<lambda>(toAdd, toRemove, ls').
     bnd (deploy_upgrader env c (upgrader_name v ls') toRemove toAdd) (\<lambda>_.
     ret ls'))"

text \<open>The loop of line 163, from index \<open>idx\<close> over the versions that remain.\<close>

fun upgraders ::
  "'w env \<Rightarrow> ctx \<Rightarrow> wrapper list \<Rightarrow> nat \<Rightarrow> version list \<Rightarrow> loop_state \<Rightarrow> ('w, loop_state) prog" where
  "upgraders env c ws idx [] ls = ret ls"
| "upgraders env c ws idx (v # vs) ls =
     bnd (upgrade_version env c ws idx v ls) (\<lambda>ls'. upgraders env c ws (Suc idx) vs ls')"

subsection \<open>Lines 161--208: versions loaded, upgraders, version uploaded\<close>

definition publish_version :: "'w env \<Rightarrow> ctx \<Rightarrow> wrapper list \<Rightarrow> ('w, unit) prog" where
  "publish_version env c newModuleWrappers =
     bnd (versionUploader_load env BACKWARD_COMPATIBILITY) (\<lambda>versions.
     bnd (upgraders env c newModuleWrappers 0 versions initial_loop_state) (\<lambda>ls.
     versionUploader_upload env (ls_newVersion ls)))"

subsection \<open>The whole of \<^verbatim>\<open>deploy\<close>\<close>

text \<open>Lines 58--208: what follows the setup.\<close>

definition deployment :: "'w env \<Rightarrow> string \<Rightarrow> ctx \<Rightarrow> ('w, unit) prog" where
  "deployment env network c =
     bnd (deploy_infrastructure env c) (\<lambda>(MakerRegistryWrapper, TokenPriceProviderWrapper).
     bnd (deploy_modules env network c MakerRegistryWrapper TokenPriceProviderWrapper)
       (\<lambda>(ApprovedTransferWrapper, RecoveryManagerWrapper, MakerV2ManagerWrapper, TransferManagerWrapper).
     let newModuleWrappers =
           [ApprovedTransferWrapper, RecoveryManagerWrapper, MakerV2ManagerWrapper,
            TransferManagerWrapper] in
     bnd (publish_config env (ctx_config c) ApprovedTransferWrapper RecoveryManagerWrapper
            MakerV2ManagerWrapper TransferManagerWrapper MakerRegistryWrapper) (\<lambda>config.
     let c = c\<lparr>ctx_config := config\<rparr> in
     bnd (register_modules env c newModuleWrappers) (\<lambda>_.
     publish_version env c newModuleWrappers))))"

definition deploy :: "'w env \<Rightarrow> string \<Rightarrow> ('w, unit) prog" where
  "deploy env network =
     bnd (warn_network network) (\<lambda>_.
     bnd (setup_context env network) (\<lambda>c.
     deployment env network c))"

section \<open>Properties of traces\<close>

text \<open>
  A step obeys \<open>Q\<close> when, from every state, it only appends events to the trace and \<open>Q\<close>
  holds of the appended events and of the step's outcome.
\<close>

definition obeys :: "(event list \<Rightarrow> error option \<Rightarrow> bool) \<Rightarrow> ('w, 'a) prog \<Rightarrow> bool" where
  "obeys Q m \<longleftrightarrow> (\<forall>s. \<exists>evs. trace (snd (m s)) = trace s @ evs \<and> Q evs (outcome (fst (m s))))"

text \<open>Fail-stop: every event but the last has returned, and the last one has returned or
  has failed with the outcome of the step.\<close>

definition fail_stop :: "event list \<Rightarrow> error option \<Rightarrow> bool" where
  "fail_stop evs out \<longleftrightarrow>
     (\<forall>ev \<in> set (butlast evs). snd ev = None)
     \<and> (evs \<noteq> [] \<longrightarrow> snd (last evs) = None \<or> snd (last evs) = out)"

text \<open>Fail-stop steps that only make calls of kind \<open>p\<close>.\<close>

definition steps :: "(call \<Rightarrow> bool) \<Rightarrow> event list \<Rightarrow> error option \<Rightarrow> bool" where
  "steps p evs out \<longleftrightarrow> (\<forall>ev \<in> set evs. p (fst ev)) \<and> fail_stop evs out"

text \<open>Kinds of calls: the configurator's updates and save, the deployment of an upgrader,
  the version uploader; a plain call is none of these.\<close>

fun config_call :: "call \<Rightarrow> bool" where
  "config_call (UpdateModuleAddresses _) = True"
| "config_call (UpdateInfrastructureAddresses _) = True"
| "config_call (UpdateGitHash _) = True"
| "config_call ConfigSave = True"
| "config_call _ = False"

fun upgrader_deploy :: "call \<Rightarrow> bool" where
  "upgrader_deploy (Deploy contract _ _) = (contract = ''SimpleUpgrader'')"
| "upgrader_deploy _ = False"

fun version_call :: "call \<Rightarrow> bool" where
  "version_call (VersionLoad _) = True"
| "version_call (VersionUpload _) = True"
| "version_call _ = False"

definition plain :: "call \<Rightarrow> bool" where
  "plain c \<longleftrightarrow> \<not> config_call c \<and> \<not> upgrader_deploy c \<and> \<not> version_call c"

text \<open>The configurator's events of a run, in order.\<close>

definition config_events :: "event list \<Rightarrow> event list" where
  "config_events evs = filter (\<lambda>ev. config_call (fst ev)) evs"

text \<open>
  The configurator's events are an initial part of: module addresses updated, infrastructure
  addresses updated, revision hash stamped, configuration saved; they are all four when the
  step has returned.
\<close>

definition saved_last :: "event list \<Rightarrow> error option \<Rightarrow> bool" where
  "saved_last evs out \<longleftrightarrow>
     (\<exists>xs ys h saved.
        prefix (config_events evs)
          [(UpdateModuleAddresses xs, None), (UpdateInfrastructureAddresses ys, None),
           (UpdateGitHash h, None), (ConfigSave, saved)]
      \<and> (out = None \<longrightarrow>
           config_events evs =
             [(UpdateModuleAddresses xs, None), (UpdateInfrastructureAddresses ys, None),
              (UpdateGitHash h, None), (ConfigSave, None)]))"

text \<open>The precondition of C8: \<^verbatim>\<open>versionUploader.load(N)\<close> answers at most \<open>N\<close> manifests.\<close>

definition loads_at_most :: "'w env \<Rightarrow> bool" where
  "loads_at_most env \<longleftrightarrow>
     (\<forall>n w vs w'. ask_versions env (VersionLoad n) w = (Inr vs, w') \<longrightarrow> length vs \<le> n)"

text \<open>The condition of C10: whenever \<^verbatim>\<open>versionUploader.load\<close> answers, it answers no manifest.\<close>

definition loads_nothing :: "'w env \<Rightarrow> bool" where
  "loads_nothing env \<longleftrightarrow>
     (\<forall>w vs w'. ask_versions env (VersionLoad BACKWARD_COMPATIBILITY) w = (Inr vs, w') \<longrightarrow> vs = [])"

text \<open>How many upgraders a run has deployed (calls made, returned or failed).\<close>

definition upgrader_deploys :: "event list \<Rightarrow> nat" where
  "upgrader_deploys evs = length (filter (\<lambda>ev. upgrader_deploy (fst ev)) evs)"

text \<open>
  Lines 161--208 with the loop cut down to at most one pass, which takes the branch
  \<^verbatim>\<open>idx === 0\<close>: the branch for older versions does not occur in it.
\<close>

definition single_pass :: "'w env \<Rightarrow> ctx \<Rightarrow> wrapper list \<Rightarrow> ('w, unit) prog" where
  "single_pass env c ws =
     bnd (versionUploader_load env BACKWARD_COMPATIBILITY) (\<lambda>versions.
     bnd (case versions of
            [] \<Rightarrow> ret initial_loop_state
          | v # _ \<Rightarrow>
              bnd (newest_branch env ws v initial_loop_state) (\<lambda>(toAdd, toRemove, ls').
              bnd (deploy_upgrader env c (upgrader_name v ls') toRemove toAdd) (\<lambda>_.
              ret ls'))) (\<lambda>ls.
     versionUploader_upload env (ls_newVersion ls)))"

text \<open>At most one upgrader is deployed.\<close>

definition at_most_one_upgrader :: "event list \<Rightarrow> error option \<Rightarrow> bool" where
  "at_most_one_upgrader evs out \<longleftrightarrow> upgrader_deploys evs \<le> 1"

text \<open>No upgrader is deployed, and once the versions have been loaded the run ends with the
  upload of the empty manifest.\<close>

definition empty_upload :: "event list \<Rightarrow> error option \<Rightarrow> bool" where
  "empty_upload evs out \<longleftrightarrow>
     upgrader_deploys evs = 0
     \<and> ((VersionLoad BACKWARD_COMPATIBILITY, None) \<in> set evs \<longrightarrow>
          (\<exists>pre uploaded.
             evs = pre @ [(VersionLoad BACKWARD_COMPATIBILITY, None),
                          (VersionUpload empty_version, uploaded)]))"

text \<open>
  The three events that lines 190--201 record for one upgrader when its deployment and its
  two registrations return: the deployment of \<^verbatim>\<open>SimpleUpgrader\<close> with the registry and
  the address lists of \<open>toRemove\<close> and \<open>toAdd\<close>, then \<^verbatim>\<open>registerModule\<close> and
  \<^verbatim>\<open>registerUpgrader\<close> through the multisig, both for the new wrapper under
  \<^verbatim>\<open>asciiToBytes32(upgraderName)\<close>.
\<close>

definition upgrader_events ::
  "'w env \<Rightarrow> ctx \<Rightarrow> string \<Rightarrow> module list \<Rightarrow> module list \<Rightarrow> wrapper \<Rightarrow> event list" where
  "upgrader_events env c upgraderName toRemove toAdd UpgraderWrapper =
     [(Deploy ''SimpleUpgrader'' (Obj [])
         [contracts (ctx_config c) ''ModuleRegistry'',
          Arr (map (\<lambda>m. Str (address m)) toRemove),
          Arr (map (\<lambda>m. Str (address m)) toAdd)], None),
      (ExecuteCall (ctx_multisigExecutor c) (ctx_ModuleRegistryWrapper c) ''registerModule''
         [Str (contractAddress UpgraderWrapper), asciiToBytes32 env upgraderName], None),
      (ExecuteCall (ctx_multisigExecutor c) (ctx_ModuleRegistryWrapper c) ''registerUpgrader''
         [Str (contractAddress UpgraderWrapper), asciiToBytes32 env upgraderName], None)]"

section \<open>Sample inputs\<close>

text \<open>
  A small environment over a world that counts the calls made: the call number \<open>k\<close> fails,
  every other call answers. Deployments answer a wrapper at a fresh address named after the
  contract, the version uploader answers the first \<open>n\<close> of the published manifests.
\<close>

definition answer :: "nat \<Rightarrow> 'a \<Rightarrow> nat \<Rightarrow> (error + 'a) \<times> nat" where
  "answer k x w = (if w = k then Inl (Rejected ''boom'') else Inr x, Suc w)"

definition demo_config :: config where
  "demo_config =
     \<lparr>contracts = (\<lambda>k. Str (''0xc_'' @ k)),
      config_modules = (\<lambda>k. Str (''0xm_'' @ k)),
      settings = (\<lambda>k. Undefined),
      defi_maker = (\<lambda>k. Str (''0xd_'' @ k)),
      defi_uniswap = (\<lambda>k. Str (''0xu_'' @ k)),
      multisig = (\<lambda>k. Bool True),
      gitHash = Undefined\<rparr>"

definition demo_env :: "nat \<Rightarrow> version list \<Rightarrow> nat env" where
  "demo_env k published =
     \<lparr>ask_manager = (\<lambda>c. answer k
         \<lparr>mgr_config = demo_config, mgr_gasPrice = Num 5, mgr_signer = ''0xsigner''\<rparr>),
      ask_wrapper = (\<lambda>c. answer k
         (case c of
            Deploy n _ _ \<Rightarrow> \<lparr>contractAddress = ''0xnew_'' @ n, contractName = n\<rparr>
          | WrapDeployedContract n (Str a) \<Rightarrow> \<lparr>contractAddress = a, contractName = n\<rparr>
          | _ \<Rightarrow> \<lparr>contractAddress = [], contractName = []\<rparr>)),
      ask_string = (\<lambda>c. answer k
         (case c of ContractMethod w m _ \<Rightarrow> ''0x'' @ m | _ \<Rightarrow> ''abc'' @ [CHR 0x0A])),
      ask_unit = (\<lambda>c. answer k ()),
      ask_versions = (\<lambda>c. answer k (case c of VersionLoad n \<Rightarrow> take n published | _ \<Rightarrow> [])),
      clock = (\<lambda>w. 1600000000123),
      semver_lt = (\<lambda>a b. if a = ''1.5.0'' then Inr True
                          else if a = ''1.6.0'' then Inr False
                          else Inl (TypeError ''Invalid Version'')),
      semver_inc = (\<lambda>a r. if a = ''1.6.0'' then Some ''1.6.1'' else None),
      hash = (\<lambda>ps. replicate (card (set ps)) (CHR ''#'')),
      asciiToBytes32 = Str\<rparr>"

definition v15 :: version where
  "v15 =
     \<lparr>version = ''1.5.0'', createdAt = 1500000000,
      modules = [\<lparr>name = ''GuardianManager'', address = ''0x01''\<rparr>,
                 \<lparr>name = ''UniswapManager'', address = ''0x02''\<rparr>,
                 \<lparr>name = ''TransferManager'', address = ''0x03''\<rparr>],
      fingerprint = ''0xabc''\<rparr>"

text \<open>An older manifest that lists the module at \<open>0x01\<close> under another name.\<close>

definition v14 :: version where
  "v14 =
     \<lparr>version = ''1.4.0'', createdAt = 1400000000,
      modules = [\<lparr>name = ''Guardians'', address = ''0x01''\<rparr>,
                 \<lparr>name = ''TokenExchanger'', address = ''0x04''\<rparr>],
      fingerprint = ''0xdef''\<rparr>"

definition demo_wrappers :: "wrapper list" where
  "demo_wrappers =
     [\<lparr>contractAddress = ''0xa1'', contractName = ''ApprovedTransfer''\<rparr>,
      \<lparr>contractAddress = ''0xa2'', contractName = ''RecoveryManager''\<rparr>,
      \<lparr>contractAddress = ''0xa3'', contractName = ''MakerV2Manager''\<rparr>,
      \<lparr>contractAddress = ''0xa4'', contractName = ''TransferManager''\<rparr>]"

definition demo_ctx :: ctx where
  "demo_ctx =
     \<lparr>ctx_config = demo_config, ctx_gasPrice = Num 5,
      ctx_ModuleRegistryWrapper =
        \<lparr>contractAddress = ''0xc_ModuleRegistry'', contractName = ''ModuleRegistry''\<rparr>,
      ctx_multisigExecutor =
        \<lparr>ms_wallet = \<lparr>contractAddress = ''0xc_MultiSigWallet'', contractName = ''MultiSigWallet''\<rparr>,
         ms_owner = ''0xsigner'', ms_autosign = Bool True,
         ms_overrides = Obj [(''gasPrice'', Num 5)]\<rparr>\<rparr>"

definition start :: "nat state" where
  "start = \<lparr>world = 0, trace = []\<rparr>"

text \<open>The target module list that index 0 finalizes from \<open>v15\<close> and the sample wrappers.\<close>

definition demo_target :: "module list" where
  "demo_target = snd (snd (newest_diff MODULES_TO_DISABLE MODULES_TO_ENABLE demo_wrappers v15))"

text \<open>The loop of line 163 over \<open>[v15, v14]\<close>, no call failing.\<close>

definition demo_loop :: "(error + loop_state) \<times> nat state" where
  "demo_loop =
     upgraders (demo_env 1000 [v15, v14]) demo_ctx demo_wrappers 0 [v15, v14]
       initial_loop_state start"

text \<open>What the sample loop leaves in the loop variables.\<close>

definition demo_final :: loop_state where
  "demo_final = \<lparr>ls_newVersion =
             \<lparr>nv_version = Some (Some ''1.6.0''),
              nv_createdAt = Some 1600000000,
              nv_modules = Some
                [\<lparr>name = ''GuardianManager'', address = ''0x01''\<rparr>,
                 \<lparr>name = ''ApprovedTransfer'', address = ''0xa1''\<rparr>,
                 \<lparr>name = ''RecoveryManager'', address = ''0xa2''\<rparr>,
                 \<lparr>name = ''MakerV2Manager'', address = ''0xa3''\<rparr>,
                 \<lparr>name = ''TransferManager'', address = ''0xa4''\<rparr>],
              nv_fingerprint = Some ''#####''\<rparr>,
           ls_fingerprint = Some ''#####''\<rparr>"

text \<open>A second run, from another world and with the wrappers in reverse order.\<close>

definition demo_loop_rev :: "(error + loop_state) \<times> nat state" where
  "demo_loop_rev =
     upgraders (demo_env 2000 [v15]) demo_ctx (rev demo_wrappers) 0 [v15]
       initial_loop_state \<lparr>world = 7, trace = []\<rparr>"

definition demo_final_rev :: loop_state where
  "demo_final_rev =
     \<lparr>ls_newVersion =
        \<lparr>nv_version = Some (Some ''1.6.0''),
         nv_createdAt = Some 1600000000,
         nv_modules = Some
           [\<lparr>name = ''GuardianManager'', address = ''0x01''\<rparr>,
            \<lparr>name = ''TransferManager'', address = ''0xa4''\<rparr>,
            \<lparr>name = ''MakerV2Manager'', address = ''0xa3''\<rparr>,
            \<lparr>name = ''RecoveryManager'', address = ''0xa2''\<rparr>,
            \<lparr>name = ''ApprovedTransfer'', address = ''0xa1''\<rparr>],
         nv_fingerprint = Some ''#####''\<rparr>,
      ls_fingerprint = Some ''#####''\<rparr>"

text \<open>The state in which \<open>deploy\<close> on kovan ends when the call number 7 fails.\<close>

definition demo_failed :: "nat state" where
  "demo_failed =
     \<lparr>world = 8,
      trace =
        [(ManagerSetup ''kovan'', None),
         (WrapDeployedContract ''ModuleRegistry'' (Str ''0xc_ModuleRegistry''), None),
         (WrapDeployedContract ''MultiSigWallet'' (Str ''0xc_MultiSigWallet''), None),
         (WrapDeployedContract ''ScdMcdMigration'' (Str ''0xd_migration''), None),
         (ContractMethod \<lparr>contractAddress = ''0xd_migration'', contractName = ''ScdMcdMigration''\<rparr>
            ''vat'' [], None),
         (Deploy ''MakerRegistry'' (Obj []) [Str ''0xvat''], None),
         (ContractMethod \<lparr>contractAddress = ''0xd_migration'', contractName = ''ScdMcdMigration''\<rparr>
            ''wethJoin'' [], None),
         (ContractMethod \<lparr>contractAddress = ''0xnew_MakerRegistry'', contractName = ''MakerRegistry''\<rparr>
            ''addCollateral'' [Str ''0xwethJoin'', Obj [(''gasPrice'', Num 5)]],
          Some (Rejected ''boom''))]\<rparr>"

text \<open>The state in which \<open>deploy\<close> on kovan ends when \<open>v15\<close> is the one published version and no call fails.\<close>

definition demo_done :: "nat state" where
  "demo_done =
     \<lparr>world = 28,
      trace =
        [(ManagerSetup ''kovan'', None),
         (WrapDeployedContract ''ModuleRegistry'' (Str ''0xc_ModuleRegistry''), None),
         (WrapDeployedContract ''MultiSigWallet'' (Str ''0xc_MultiSigWallet''), None),
         (WrapDeployedContract ''ScdMcdMigration'' (Str ''0xd_migration''), None),
         (ContractMethod \<lparr>contractAddress = ''0xd_migration'', contractName =
            ''ScdMcdMigration''\<rparr> ''vat'' [], None),
         (Deploy ''MakerRegistry'' (Obj []) [Str ''0xvat''], None),
         (ContractMethod \<lparr>contractAddress = ''0xd_migration'', contractName =
            ''ScdMcdMigration''\<rparr> ''wethJoin'' [], None),
         (ContractMethod \<lparr>contractAddress = ''0xnew_MakerRegistry'', contractName =
            ''MakerRegistry''\<rparr> ''addCollateral'' [Str ''0xwethJoin'', Obj [(''gasPrice'',
            Num 5)]], None),
         (VerboseWaitForTransaction \<lparr>contractAddress = ''0xnew_MakerRegistry'',
            contractName = ''MakerRegistry''\<rparr> ''0xaddCollateral''
            ''Adding join adapter 0xwethJoin to the MakerRegistry'', None),
         (ContractMethod \<lparr>contractAddress = ''0xnew_MakerRegistry'', contractName =
            ''MakerRegistry''\<rparr> ''changeOwner'' [Str ''0xc_MultiSigWallet'', Obj
            [(''gasPrice'', Num 5)]], None),
         (VerboseWaitForTransaction \<lparr>contractAddress = ''0xnew_MakerRegistry'',
            contractName = ''MakerRegistry''\<rparr> ''0xchangeOwner''
            ''Set the MultiSig as the owner of the MakerRegistry'', None),
         (WrapDeployedContract ''TokenPriceProvider'' (Str ''0xc_TokenPriceProvider''), None),
         (Deploy ''ApprovedTransfer'' (Obj []) [Str ''0xc_ModuleRegistry'', Str
            ''0xm_GuardianStorage''], None),
         (Deploy ''RecoveryManager'' (Obj []) [Str ''0xc_ModuleRegistry'', Str
            ''0xm_GuardianStorage'', Num 0, Num 0, Num 0, Num 0], None),
         (Deploy ''MakerV2Manager'' (Obj []) [Str ''0xc_ModuleRegistry'', Str
            ''0xm_GuardianStorage'', Str ''0xd_migration'', Str ''0xd_pot'', Str ''0xd_jug'',
            Str ''0xnew_MakerRegistry'', Str ''0xu_factory''], None),
         (Deploy ''TransferManager'' (Obj []) [Str ''0xc_ModuleRegistry'', Str
            ''0xm_TransferStorage'', Str ''0xm_GuardianStorage'', Str
            ''0xc_TokenPriceProvider'', Num 0, Num 0, Str ''1000000000000000000'', Str
            ''0x0000000000000000000000000000000000000000''], None),
         (UpdateModuleAddresses [(''ApprovedTransfer'', Str ''0xnew_ApprovedTransfer''),
            (''RecoveryManager'', Str ''0xnew_RecoveryManager''), (''MakerV2Manager'', Str
            ''0xnew_MakerV2Manager''), (''TransferManager'', Str ''0xnew_TransferManager'')],
            None),
         (UpdateInfrastructureAddresses [(''MakerRegistry'', Str ''0xnew_MakerRegistry'')],
            None),
         (ExecSync ''git rev-parse HEAD'', None),
         (UpdateGitHash ''abc'', None),
         (ConfigSave, None),
         (AbiUploadAll [(\<lparr>contractAddress = ''0xnew_ApprovedTransfer'', contractName =
            ''ApprovedTransfer''\<rparr>, ''modules''), (\<lparr>contractAddress =
            ''0xnew_RecoveryManager'', contractName = ''RecoveryManager''\<rparr>, ''modules''),
            (\<lparr>contractAddress = ''0xnew_MakerV2Manager'', contractName =
            ''MakerV2Manager''\<rparr>, ''modules''), (\<lparr>contractAddress =
            ''0xnew_TransferManager'', contractName = ''TransferManager''\<rparr>, ''modules''),
            (\<lparr>contractAddress = ''0xnew_MakerRegistry'', contractName =
            ''MakerRegistry''\<rparr>, ''contracts'')], None),
         (ExecuteCall (ctx_multisigExecutor demo_ctx) (ctx_ModuleRegistryWrapper demo_ctx)
            ''registerModule'' [Str ''0xnew_ApprovedTransfer'', Str ''ApprovedTransfer''], None),
         (ExecuteCall (ctx_multisigExecutor demo_ctx) (ctx_ModuleRegistryWrapper demo_ctx)
            ''registerModule'' [Str ''0xnew_RecoveryManager'', Str ''RecoveryManager''], None),
         (ExecuteCall (ctx_multisigExecutor demo_ctx) (ctx_ModuleRegistryWrapper demo_ctx)
            ''registerModule'' [Str ''0xnew_MakerV2Manager'', Str ''MakerV2Manager''], None),
         (ExecuteCall (ctx_multisigExecutor demo_ctx) (ctx_ModuleRegistryWrapper demo_ctx)
            ''registerModule'' [Str ''0xnew_TransferManager'', Str ''TransferManager''], None),
         (VersionLoad 1, None),
         (Deploy ''SimpleUpgrader'' (Obj []) [Str ''0xc_ModuleRegistry'', Arr [Str ''0x02'', Str
            ''0x03''], Arr [Str ''0xnew_ApprovedTransfer'', Str ''0xnew_RecoveryManager'', Str
            ''0xnew_MakerV2Manager'', Str ''0xnew_TransferManager'']], None),
         (ExecuteCall (ctx_multisigExecutor demo_ctx) (ctx_ModuleRegistryWrapper demo_ctx)
            ''registerModule'' [Str ''0xnew_SimpleUpgrader'', Str ''0xabc_#####''], None),
         (ExecuteCall (ctx_multisigExecutor demo_ctx) (ctx_ModuleRegistryWrapper demo_ctx)
            ''registerUpgrader'' [Str ''0xnew_SimpleUpgrader'', Str ''0xabc_#####''], None),
         (VersionUpload \<lparr>nv_version = Some (Some ''1.6.0''), nv_createdAt = Some
            1600000000, nv_modules = Some [\<lparr>name = ''GuardianManager'', address =
            ''0x01''\<rparr>, \<lparr>name = ''ApprovedTransfer'', address =
            ''0xnew_ApprovedTransfer''\<rparr>, \<lparr>name = ''RecoveryManager'', address =
            ''0xnew_RecoveryManager''\<rparr>, \<lparr>name = ''MakerV2Manager'', address =
            ''0xnew_MakerV2Manager''\<rparr>, \<lparr>name = ''TransferManager'', address =
            ''0xnew_TransferManager''\<rparr>], nv_fingerprint = Some ''#####''\<rparr>, None)]\<rparr>"

text \<open>The same on the network \<^verbatim>\<open>test\<close>, which is not on the allow-list of lines 25--29.\<close>

definition demo_done_test :: "nat state" where
  "demo_done_test =
     \<lparr>world = 28,
      trace =
        [(ConsoleWarn
            ''------------------------------------------------------------------------'', None),
         (ConsoleWarn ''WARNING: The MakerManagerV2 module is not fully functional on test'',
            None),
         (ConsoleWarn
            ''------------------------------------------------------------------------'', None),
         (ManagerSetup ''test'', None),
         (WrapDeployedContract ''ModuleRegistry'' (Str ''0xc_ModuleRegistry''), None),
         (WrapDeployedContract ''MultiSigWallet'' (Str ''0xc_MultiSigWallet''), None),
         (WrapDeployedContract ''ScdMcdMigration'' (Str ''0xd_migration''), None),
         (ContractMethod \<lparr>contractAddress = ''0xd_migration'', contractName =
            ''ScdMcdMigration''\<rparr> ''vat'' [], None),
         (Deploy ''MakerRegistry'' (Obj []) [Str ''0xvat''], None),
         (ContractMethod \<lparr>contractAddress = ''0xd_migration'', contractName =
            ''ScdMcdMigration''\<rparr> ''wethJoin'' [], None),
         (ContractMethod \<lparr>contractAddress = ''0xnew_MakerRegistry'', contractName =
            ''MakerRegistry''\<rparr> ''addCollateral'' [Str ''0xwethJoin'', Obj [(''gasPrice'',
            Num 5)]], None),
         (VerboseWaitForTransaction \<lparr>contractAddress = ''0xnew_MakerRegistry'',
            contractName = ''MakerRegistry''\<rparr> ''0xaddCollateral''
            ''Adding join adapter 0xwethJoin to the MakerRegistry'', None),
         (ContractMethod \<lparr>contractAddress = ''0xnew_MakerRegistry'', contractName =
            ''MakerRegistry''\<rparr> ''changeOwner'' [Str ''0xc_MultiSigWallet'', Obj
            [(''gasPrice'', Num 5)]], None),
         (VerboseWaitForTransaction \<lparr>contractAddress = ''0xnew_MakerRegistry'',
            contractName = ''MakerRegistry''\<rparr> ''0xchangeOwner''
            ''Set the MultiSig as the owner of the MakerRegistry'', None),
         (WrapDeployedContract ''TokenPriceProvider'' (Str ''0xc_TokenPriceProvider''), None),
         (Deploy ''ApprovedTransfer'' (Obj []) [Str ''0xc_ModuleRegistry'', Str
            ''0xm_GuardianStorage''], None),
         (Deploy ''RecoveryManager'' (Obj []) [Str ''0xc_ModuleRegistry'', Str
            ''0xm_GuardianStorage'', Num 0, Num 0, Num 0, Num 0], None),
         (Deploy ''MakerV2Manager'' (Obj []) [Str ''0xc_ModuleRegistry'', Str
            ''0xm_GuardianStorage'', Str ''0xd_migration'', Str ''0xd_pot'', Str ''0xd_jug'',
            Str ''0xnew_MakerRegistry'', Str ''0xu_factory''], None),
         (Deploy ''TransferManager'' (Obj []) [Str ''0xc_ModuleRegistry'', Str
            ''0xm_TransferStorage'', Str ''0xm_GuardianStorage'', Str
            ''0xc_TokenPriceProvider'', Num 0, Num 0, Str ''1000000000000000000'', Str
            ''0xm_TransferManager''], None),
         (UpdateModuleAddresses [(''ApprovedTransfer'', Str ''0xnew_ApprovedTransfer''),
            (''RecoveryManager'', Str ''0xnew_RecoveryManager''), (''MakerV2Manager'', Str
            ''0xnew_MakerV2Manager''), (''TransferManager'', Str ''0xnew_TransferManager'')],
            None),
         (UpdateInfrastructureAddresses [(''MakerRegistry'', Str ''0xnew_MakerRegistry'')],
            None),
         (ExecSync ''git rev-parse HEAD'', None),
         (UpdateGitHash ''abc'', None),
         (ConfigSave, None),
         (AbiUploadAll [(\<lparr>contractAddress = ''0xnew_ApprovedTransfer'', contractName =
            ''ApprovedTransfer''\<rparr>, ''modules''), (\<lparr>contractAddress =
            ''0xnew_RecoveryManager'', contractName = ''RecoveryManager''\<rparr>, ''modules''),
            (\<lparr>contractAddress = ''0xnew_MakerV2Manager'', contractName =
            ''MakerV2Manager''\<rparr>, ''modules''), (\<lparr>contractAddress =
            ''0xnew_TransferManager'', contractName = ''TransferManager''\<rparr>, ''modules''),
            (\<lparr>contractAddress = ''0xnew_MakerRegistry'', contractName =
            ''MakerRegistry''\<rparr>, ''contracts'')], None),
         (ExecuteCall (ctx_multisigExecutor demo_ctx) (ctx_ModuleRegistryWrapper demo_ctx)
            ''registerModule'' [Str ''0xnew_ApprovedTransfer'', Str ''ApprovedTransfer''], None),
         (ExecuteCall (ctx_multisigExecutor demo_ctx) (ctx_ModuleRegistryWrapper demo_ctx)
            ''registerModule'' [Str ''0xnew_RecoveryManager'', Str ''RecoveryManager''], None),
         (ExecuteCall (ctx_multisigExecutor demo_ctx) (ctx_ModuleRegistryWrapper demo_ctx)
            ''registerModule'' [Str ''0xnew_MakerV2Manager'', Str ''MakerV2Manager''], None),
         (ExecuteCall (ctx_multisigExecutor demo_ctx) (ctx_ModuleRegistryWrapper demo_ctx)
            ''registerModule'' [Str ''0xnew_TransferManager'', Str ''TransferManager''], None),
         (VersionLoad 1, None),
         (Deploy ''SimpleUpgrader'' (Obj []) [Str ''0xc_ModuleRegistry'', Arr [Str ''0x02'', Str
            ''0x03''], Arr [Str ''0xnew_ApprovedTransfer'', Str ''0xnew_RecoveryManager'', Str
            ''0xnew_MakerV2Manager'', Str ''0xnew_TransferManager'']], None),
         (ExecuteCall (ctx_multisigExecutor demo_ctx) (ctx_ModuleRegistryWrapper demo_ctx)
            ''registerModule'' [Str ''0xnew_SimpleUpgrader'', Str ''0xabc_#####''], None),
         (ExecuteCall (ctx_multisigExecutor demo_ctx) (ctx_ModuleRegistryWrapper demo_ctx)
            ''registerUpgrader'' [Str ''0xnew_SimpleUpgrader'', Str ''0xabc_#####''], None),
         (VersionUpload \<lparr>nv_version = Some (Some ''1.6.0''), nv_createdAt = Some
            1600000000, nv_modules = Some [\<lparr>name = ''GuardianManager'', address =
            ''0x01''\<rparr>, \<lparr>name = ''ApprovedTransfer'', address =
            ''0xnew_ApprovedTransfer''\<rparr>, \<lparr>name = ''RecoveryManager'', address =
            ''0xnew_RecoveryManager''\<rparr>, \<lparr>name = ''MakerV2Manager'', address =
            ''0xnew_MakerV2Manager''\<rparr>, \<lparr>name = ''TransferManager'', address =
            ''0xnew_TransferManager''\<rparr>], nv_fingerprint = Some ''#####''\<rparr>, None)]\<rparr>"

text \<open>The same on kovan when no version has been published.\<close>

definition demo_done_empty :: "nat state" where
  "demo_done_empty =
     \<lparr>world = 25,
      trace =
        [(ManagerSetup ''kovan'', None),
         (WrapDeployedContract ''ModuleRegistry'' (Str ''0xc_ModuleRegistry''), None),
         (WrapDeployedContract ''MultiSigWallet'' (Str ''0xc_MultiSigWallet''), None),
         (WrapDeployedContract ''ScdMcdMigration'' (Str ''0xd_migration''), None),
         (ContractMethod \<lparr>contractAddress = ''0xd_migration'', contractName =
            ''ScdMcdMigration''\<rparr> ''vat'' [], None),
         (Deploy ''MakerRegistry'' (Obj []) [Str ''0xvat''], None),
         (ContractMethod \<lparr>contractAddress = ''0xd_migration'', contractName =
            ''ScdMcdMigration''\<rparr> ''wethJoin'' [], None),
         (ContractMethod \<lparr>contractAddress = ''0xnew_MakerRegistry'', contractName =
            ''MakerRegistry''\<rparr> ''addCollateral'' [Str ''0xwethJoin'', Obj [(''gasPrice'',
            Num 5)]], None),
         (VerboseWaitForTransaction \<lparr>contractAddress = ''0xnew_MakerRegistry'',
            contractName = ''MakerRegistry''\<rparr> ''0xaddCollateral''
            ''Adding join adapter 0xwethJoin to the MakerRegistry'', None),
         (ContractMethod \<lparr>contractAddress = ''0xnew_MakerRegistry'', contractName =
            ''MakerRegistry''\<rparr> ''changeOwner'' [Str ''0xc_MultiSigWallet'', Obj
            [(''gasPrice'', Num 5)]], None),
         (VerboseWaitForTransaction \<lparr>contractAddress = ''0xnew_MakerRegistry'',
            contractName = ''MakerRegistry''\<rparr> ''0xchangeOwner''
            ''Set the MultiSig as the owner of the MakerRegistry'', None),
         (WrapDeployedContract ''TokenPriceProvider'' (Str ''0xc_TokenPriceProvider''), None),
         (Deploy ''ApprovedTransfer'' (Obj []) [Str ''0xc_ModuleRegistry'', Str
            ''0xm_GuardianStorage''], None),
         (Deploy ''RecoveryManager'' (Obj []) [Str ''0xc_ModuleRegistry'', Str
            ''0xm_GuardianStorage'', Num 0, Num 0, Num 0, Num 0], None),
         (Deploy ''MakerV2Manager'' (Obj []) [Str ''0xc_ModuleRegistry'', Str
            ''0xm_GuardianStorage'', Str ''0xd_migration'', Str ''0xd_pot'', Str ''0xd_jug'',
            Str ''0xnew_MakerRegistry'', Str ''0xu_factory''], None),
         (Deploy ''TransferManager'' (Obj []) [Str ''0xc_ModuleRegistry'', Str
            ''0xm_TransferStorage'', Str ''0xm_GuardianStorage'', Str
            ''0xc_TokenPriceProvider'', Num 0, Num 0, Str ''1000000000000000000'', Str
            ''0x0000000000000000000000000000000000000000''], None),
         (UpdateModuleAddresses [(''ApprovedTransfer'', Str ''0xnew_ApprovedTransfer''),
            (''RecoveryManager'', Str ''0xnew_RecoveryManager''), (''MakerV2Manager'', Str
            ''0xnew_MakerV2Manager''), (''TransferManager'', Str ''0xnew_TransferManager'')],
            None),
         (UpdateInfrastructureAddresses [(''MakerRegistry'', Str ''0xnew_MakerRegistry'')],
            None),
         (ExecSync ''git rev-parse HEAD'', None),
         (UpdateGitHash ''abc'', None),
         (ConfigSave, None),
         (AbiUploadAll [(\<lparr>contractAddress = ''0xnew_ApprovedTransfer'', contractName =
            ''ApprovedTransfer''\<rparr>, ''modules''), (\<lparr>contractAddress =
            ''0xnew_RecoveryManager'', contractName = ''RecoveryManager''\<rparr>, ''modules''),
            (\<lparr>contractAddress = ''0xnew_MakerV2Manager'', contractName =
            ''MakerV2Manager''\<rparr>, ''modules''), (\<lparr>contractAddress =
            ''0xnew_TransferManager'', contractName = ''TransferManager''\<rparr>, ''modules''),
            (\<lparr>contractAddress = ''0xnew_MakerRegistry'', contractName =
            ''MakerRegistry''\<rparr>, ''contracts'')], None),
         (ExecuteCall (ctx_multisigExecutor demo_ctx) (ctx_ModuleRegistryWrapper demo_ctx)
            ''registerModule'' [Str ''0xnew_ApprovedTransfer'', Str ''ApprovedTransfer''], None),
         (ExecuteCall (ctx_multisigExecutor demo_ctx) (ctx_ModuleRegistryWrapper demo_ctx)
            ''registerModule'' [Str ''0xnew_RecoveryManager'', Str ''RecoveryManager''], None),
         (ExecuteCall (ctx_multisigExecutor demo_ctx) (ctx_ModuleRegistryWrapper demo_ctx)
            ''registerModule'' [Str ''0xnew_MakerV2Manager'', Str ''MakerV2Manager''], None),
         (ExecuteCall (ctx_multisigExecutor demo_ctx) (ctx_ModuleRegistryWrapper demo_ctx)
            ''registerModule'' [Str ''0xnew_TransferManager'', Str ''TransferManager''], None),
         (VersionLoad 1, None),
         (VersionUpload \<lparr>nv_version = None, nv_createdAt = None, nv_modules = None,
            nv_fingerprint = None\<rparr>, None)]\<rparr>"

section \<open>Running the script\<close>

lemmas prims = ret_def throw_def bnd_def perform_def emit_def now_def lift_def outcome_def
  console_warn_def manager_setup_def wrapDeployedContract_def deployer_deploy_def
  contract_method_def verboseWaitForTransaction_def execSync_def configurator_save_def
  abiUploader_upload_all_def executeCall_def versionUploader_load_def
  versionUploader_upload_def updateModuleAddresses_def updateInfrastructureAddresses_def
  updateGitHash_def

lemmas script = warn_network_def setup_context_def deploy_infrastructure_def deploy_modules_def
  publish_config_def newest_branch_def older_branch_def upgrader_name_def deploy_upgrader_def
  upgrade_version_def publish_version_def deployment_def deploy_def
  newest_diff_def older_diff_def versionFingerprint_def module_of_def
  js_or_def strip_newline_def template_def initial_loop_state_def empty_version_def
  TARGET_VERSION_def MODULES_TO_ENABLE_def MODULES_TO_DISABLE_def BACKWARD_COMPATIBILITY_def

lemmas demo = demo_env_def demo_config_def answer_def v15_def v14_def demo_wrappers_def
  demo_ctx_def start_def

lemma bnd_Inr_iff:
  "bnd m f s = (Inr y, s'') \<longleftrightarrow> (\<exists>x s'. m s = (Inr x, s') \<and> f x s' = (Inr y, s''))"
  by (auto simp: bnd_def split: prod.splits sum.splits)

subsection \<open>What the loop leaves in \<^verbatim>\<open>newVersion\<close>\<close>

lemma newest_branch_Inr:
  assumes "newest_branch env ws v ls s = (Inr (toAdd, toRemove, ls'), s')"
  shows "s' = s \<and> (\<exists>lower target.
           semver_lt env (version v) TARGET_VERSION = Inr lower
         \<and> newest_diff MODULES_TO_DISABLE MODULES_TO_ENABLE ws v = (toAdd, toRemove, target)
         \<and> ls' = \<lparr>ls_newVersion = (ls_newVersion ls)
                     \<lparr>nv_version := Some (if lower then Some TARGET_VERSION
                                           else semver_inc env (version v) ''patch''),
                      nv_createdAt := Some (clock env (world s) div 1000),
                      nv_modules := Some target,
                      nv_fingerprint := Some (versionFingerprint (hash env) target)\<rparr>,
                   ls_fingerprint = Some (versionFingerprint (hash env) target)\<rparr>)"
  using assms
  by (cases "semver_lt env (version v) TARGET_VERSION")
     (auto simp: newest_branch_def bnd_def lift_def ret_def throw_def now_def Let_def
           split: prod.splits)

lemma older_branch_Inr:
  assumes "older_branch v ls s = (Inr (toAdd, toRemove, ls'), s')"
  shows "s' = s \<and> ls' = ls \<and>
         (\<exists>target. nv_modules (ls_newVersion ls) = Some target
                  \<and> older_diff target v = (toAdd, toRemove))"
  using assms
  by (auto simp: older_branch_def ret_def throw_def split: option.splits prod.splits)

lemma upgrade_version_older:
  assumes "upgrade_version env c ws idx v ls s = (Inr ls', s')" and "0 < idx"
  shows "ls' = ls"
  using assms
  by (auto simp: upgrade_version_def bnd_Inr_iff ret_def dest!: older_branch_Inr)

lemma upgraders_older:
  "upgraders env c ws idx vs ls s = (Inr ls', s') \<Longrightarrow> 0 < idx \<Longrightarrow> ls' = ls"
proof (induction vs arbitrary: idx ls s)
  case Nil
  then show ?case by (simp add: ret_def)
next
  case (Cons v vs)
  from Cons.prems(1) obtain ls1 s1 where
    one: "upgrade_version env c ws idx v ls s = (Inr ls1, s1)" and
    rest: "upgraders env c ws (Suc idx) vs ls1 s1 = (Inr ls', s')"
    by (auto simp: bnd_Inr_iff)
  from one Cons.prems(2) have "ls1 = ls" by (rule upgrade_version_older)
  moreover from rest have "ls' = ls1" by (rule Cons.IH) simp
  ultimately show ?case by simp
qed

lemma upgraders_newest:
  assumes "upgraders env c ws 0 (v # vs) ls s = (Inr ls', s')"
  shows "\<exists>toAdd toRemove. newest_branch env ws v ls s = (Inr (toAdd, toRemove, ls'), s)"
proof -
  from assms obtain ls1 s1 where
    one: "upgrade_version env c ws 0 v ls s = (Inr ls1, s1)" and
    rest: "upgraders env c ws (Suc 0) vs ls1 s1 = (Inr ls', s')"
    by (auto simp: bnd_Inr_iff)
  from rest have "ls' = ls1" by (rule upgraders_older) simp
  moreover from one obtain toAdd toRemove s2 where
    "newest_branch env ws v ls s = (Inr (toAdd, toRemove, ls1), s2)"
    by (auto simp: upgrade_version_def bnd_Inr_iff ret_def)
  moreover from this have "s2 = s" by (auto dest: newest_branch_Inr)
  ultimately show ?thesis by blast
qed

lemma upgraders_finalized:
  assumes "upgraders env c ws 0 (v # vs) ls s = (Inr ls', s')"
  shows "\<exists>lower toAdd toRemove target.
           semver_lt env (version v) TARGET_VERSION = Inr lower
         \<and> newest_diff MODULES_TO_DISABLE MODULES_TO_ENABLE ws v = (toAdd, toRemove, target)
         \<and> ls' = \<lparr>ls_newVersion = (ls_newVersion ls)
                     \<lparr>nv_version := Some (if lower then Some TARGET_VERSION
                                           else semver_inc env (version v) ''patch''),
                      nv_createdAt := Some (clock env (world s) div 1000),
                      nv_modules := Some target,
                      nv_fingerprint := Some (versionFingerprint (hash env) target)\<rparr>,
                   ls_fingerprint = Some (versionFingerprint (hash env) target)\<rparr>"
  using upgraders_newest [OF assms] by (blast dest: newest_branch_Inr)

subsection \<open>The diff against the target\<close>

lemma older_diff_disjoint:
  "set (fst (older_diff target v)) \<inter> set (snd (older_diff target v)) = {}"
  by (auto simp: older_diff_def Let_def)

lemma older_diff_addresses:
  "address ` set (fst (older_diff target v))
     \<union> (address ` set (modules v) - address ` set (snd (older_diff target v)))
   = address ` set target"
  by (auto simp: older_diff_def Let_def image_iff)

lemma older_diff_pairs:
  assumes "\<forall>m \<in> set (modules v). \<forall>m' \<in> set target. address m = address m' \<longrightarrow> name m = name m'"
  shows "set (fst (older_diff target v)) \<union> (set (modules v) - set (snd (older_diff target v)))
         = set target"
proof -
  have eq: "m = m'" if "m \<in> set (modules v)" "m' \<in> set target" "address m = address m'"
    for m m' :: module
    using that assms by (cases m, cases m') auto
  show ?thesis
    using eq by (auto simp: older_diff_def Let_def image_iff) metis+
qed

subsection \<open>The sample runs\<close>


lemma demo_loop_rev_fst: "fst demo_loop_rev = Inr demo_final_rev"
  by (simp add: demo_loop_rev_def demo_final_rev_def prims script demo Let_def)

lemma demo_loop_rev_run:
  "upgraders (demo_env 2000 [v15]) demo_ctx (rev demo_wrappers) 0 (v15 # [])
     initial_loop_state \<lparr>world = 7, trace = []\<rparr> = (Inr demo_final_rev, snd demo_loop_rev)"
  using demo_loop_rev_fst unfolding demo_loop_rev_def by (simp add: prod_eq_iff)

lemma demo_hash_order_independent: "order_independent (hash (demo_env k published))"
  by (simp add: order_independent_def demo_env_def)

lemma demo_target_value:
  "demo_target =
     [\<lparr>name = ''GuardianManager'', address = ''0x01''\<rparr>,
      \<lparr>name = ''ApprovedTransfer'', address = ''0xa1''\<rparr>,
      \<lparr>name = ''RecoveryManager'', address = ''0xa2''\<rparr>,
      \<lparr>name = ''MakerV2Manager'', address = ''0xa3''\<rparr>,
      \<lparr>name = ''TransferManager'', address = ''0xa4''\<rparr>]"
  by (simp add: demo_target_def script demo Let_def)

lemma demo_loop_fst: "fst demo_loop = Inr demo_final"
  by (simp add: demo_loop_def demo_final_def prims script demo Let_def)

lemma demo_loop_run:
  "upgraders (demo_env 1000 [v15, v14]) demo_ctx demo_wrappers 0 (v15 # [v14])
     initial_loop_state start = (Inr demo_final, snd demo_loop)"
  using demo_loop_fst unfolding demo_loop_def by (simp add: prod_eq_iff)

lemma demo_older_diff: "older_diff demo_target v15 = ([\<lparr>name = ''ApprovedTransfer'', address = ''0xa1''\<rparr>,
          \<lparr>name = ''RecoveryManager'', address = ''0xa2''\<rparr>,
          \<lparr>name = ''MakerV2Manager'', address = ''0xa3''\<rparr>,
          \<lparr>name = ''TransferManager'', address = ''0xa4''\<rparr>], [\<lparr>name = ''UniswapManager'', address = ''0x02''\<rparr>,
          \<lparr>name = ''TransferManager'', address = ''0x03''\<rparr>])"
  by (simp add: older_diff_def demo_target_value v15_def Let_def)

subsection \<open>Steps that obey a property\<close>

lemma obeys_ret: "Q [] None \<Longrightarrow> obeys Q (ret x)"
  by (simp add: obeys_def ret_def outcome_def)

lemma obeys_throw: "Q [] (Some e) \<Longrightarrow> obeys Q (throw e)"
  by (simp add: obeys_def throw_def outcome_def)

lemma obeys_emit: "Q [(c, None)] None \<Longrightarrow> obeys Q (emit c)"
  by (simp add: obeys_def emit_def outcome_def)

lemma obeys_now: "Q [] None \<Longrightarrow> obeys Q (now env)"
  by (simp add: obeys_def now_def outcome_def)

lemma obeys_perform:
  assumes "\<And>out. Q [(c, out)] out"
  shows "obeys Q (perform ask c)"
  unfolding obeys_def
proof
  fix s :: "'a state"
  obtain r w' where a: "ask c (world s) = (r, w')" by (cases "ask c (world s)")
  have "trace (snd (perform ask c s)) = trace s @ [(c, outcome r)]"
    by (simp add: perform_def a)
  moreover have "Q [(c, outcome r)] (outcome (fst (perform ask c s)))"
    using assms by (simp add: perform_def a)
  ultimately show "\<exists>evs. trace (snd (perform ask c s)) = trace s @ evs
                     \<and> Q evs (outcome (fst (perform ask c s)))"
    by blast
qed

lemma obeys_bnd:
  assumes m: "obeys P m"
      and f: "\<And>x. obeys R (f x)"
      and err: "\<And>evs e. P evs (Some e) \<Longrightarrow> Q evs (Some e)"
      and seq: "\<And>evs evs' out. P evs None \<Longrightarrow> R evs' out \<Longrightarrow> Q (evs @ evs') out"
  shows "obeys Q (bnd m f)"
  unfolding obeys_def
proof
  fix s
  from m obtain evs where
    t: "trace (snd (m s)) = trace s @ evs" and p: "P evs (outcome (fst (m s)))"
    unfolding obeys_def by blast
  obtain r s1 where ms: "m s = (r, s1)" by (cases "m s")
  show "\<exists>evs. trace (snd (bnd m f s)) = trace s @ evs \<and> Q evs (outcome (fst (bnd m f s)))"
  proof (cases r)
    case (Inl e)
    with ms have "bnd m f s = (Inl e, s1)" by (simp add: bnd_def)
    moreover from p ms Inl have "Q evs (Some e)" by (simp add: outcome_def err)
    ultimately show ?thesis using t ms by (auto simp: outcome_def)
  next
    case (Inr x)
    with ms have b: "bnd m f s = f x s1" by (simp add: bnd_def)
    from f [of x] obtain evs' where
      t': "trace (snd (f x s1)) = trace s1 @ evs'" and r: "R evs' (outcome (fst (f x s1)))"
      unfolding obeys_def by blast
    from p ms Inr have "P evs None" by (simp add: outcome_def)
    from seq [OF this r] have "Q (evs @ evs') (outcome (fst (bnd m f s)))" by (simp add: b)
    moreover from t t' ms have "trace (snd (bnd m f s)) = trace s @ evs @ evs'" by (simp add: b)
    ultimately show ?thesis by blast
  qed
qed

lemma obeys_weaken:
  assumes "obeys P m" and "\<And>evs out. P evs out \<Longrightarrow> Q evs out"
  shows "obeys Q m"
  using assms unfolding obeys_def by blast

lemma obeys_case_prod: "(\<And>a b. obeys Q (f a b)) \<Longrightarrow> obeys Q (case_prod f x)"
  by (cases x) simp

lemma obeys_if: "obeys Q a \<Longrightarrow> obeys Q b \<Longrightarrow> obeys Q (if c then a else b)"
  by simp

lemma fail_stop_Nil: "fail_stop [] out"
  by (simp add: fail_stop_def)

lemma fail_stop_single: "fail_stop [(c, out)] out"
  by (simp add: fail_stop_def)

lemma fail_stop_ok: "fail_stop [(c, None)] out"
  by (simp add: fail_stop_def)

lemma fail_stop_None: "fail_stop evs None \<longleftrightarrow> (\<forall>ev \<in> set evs. snd ev = None)"
proof (cases evs rule: rev_cases)
  case Nil
  then show ?thesis by (simp add: fail_stop_def)
next
  case (snoc ys y)
  then show ?thesis by (auto simp: fail_stop_def)
qed

lemma fail_stop_append:
  assumes "fail_stop evs None" and "fail_stop evs' out"
  shows "fail_stop (evs @ evs') out"
proof -
  from assms(1) have ok: "\<forall>ev \<in> set evs. snd ev = None"
    by (simp add: fail_stop_None)
  show ?thesis
  proof (cases evs' rule: rev_cases)
    case Nil
    with ok show ?thesis by (auto simp: fail_stop_def dest: in_set_butlastD)
  next
    case (snoc ys y)
    with ok assms(2) show ?thesis
      by (auto simp: fail_stop_def butlast_append)
  qed
qed

lemma steps_ret: "obeys (steps p) (ret x)"
  by (rule obeys_ret) (simp add: steps_def fail_stop_Nil)

lemma steps_throw: "obeys (steps p) (throw e)"
  by (rule obeys_throw) (simp add: steps_def fail_stop_Nil)

lemma steps_now: "obeys (steps p) (now env)"
  by (rule obeys_now) (simp add: steps_def fail_stop_Nil)

lemma steps_lift: "obeys (steps p) (lift r)"
  by (cases r) (simp_all add: lift_def steps_ret steps_throw)

lemma steps_emit: "p c \<Longrightarrow> obeys (steps p) (emit c)"
  by (rule obeys_emit) (simp add: steps_def fail_stop_ok)

lemma steps_perform: "p c \<Longrightarrow> obeys (steps p) (perform ask c)"
  by (rule obeys_perform) (simp add: steps_def fail_stop_single)

lemma steps_bnd:
  assumes "obeys (steps p) m" and "\<And>x. obeys (steps p) (f x)"
  shows "obeys (steps p) (bnd m f)"
  using assms
proof (rule obeys_bnd)
  show "steps p evs (Some e) \<Longrightarrow> steps p evs (Some e)" for evs e .
  show "steps p evs None \<Longrightarrow> steps p evs' out \<Longrightarrow> steps p (evs @ evs') out" for evs evs' out
    by (auto simp: steps_def fail_stop_append)
qed

lemma steps_weaken:
  assumes "obeys (steps p) m" and "\<And>c. p c \<Longrightarrow> q c"
  shows "obeys (steps q) m"
  using assms(1) by (rule obeys_weaken) (auto simp: steps_def assms(2))

lemmas steps_intros = steps_bnd steps_ret steps_throw steps_now steps_lift steps_emit
  steps_perform obeys_case_prod obeys_if

lemma warn_network_plain: "obeys (steps plain) (warn_network network)"
  unfolding warn_network_def console_warn_def
  by (intro steps_intros) (simp_all add: plain_def)

lemma setup_context_plain: "obeys (steps plain) (setup_context env network)"
  unfolding setup_context_def Let_def manager_setup_def wrapDeployedContract_def
  by (intro steps_intros) (simp_all add: plain_def)

lemma deploy_infrastructure_plain: "obeys (steps plain) (deploy_infrastructure env c)"
  unfolding deploy_infrastructure_def Let_def wrapDeployedContract_def contract_method_def
    deployer_deploy_def verboseWaitForTransaction_def
  by (intro steps_intros) (simp_all add: plain_def)

lemma deploy_modules_plain: "obeys (steps plain) (deploy_modules env network c a b)"
  unfolding deploy_modules_def Let_def deployer_deploy_def
  by (intro steps_intros) (simp_all add: plain_def)

lemma register_modules_plain: "obeys (steps plain) (register_modules env c ws)"
  by (induction ws) (auto simp: executeCall_def plain_def intro!: steps_intros)


lemma newest_branch_steps: "obeys (steps p) (newest_branch env ws v ls)"
  unfolding newest_branch_def Let_def
  by (intro steps_intros)

lemma older_branch_steps: "obeys (steps p) (older_branch v ls)"
  unfolding older_branch_def
  by (cases "nv_modules (ls_newVersion ls)") (auto intro!: steps_intros)

lemma deploy_upgrader_steps:
  "obeys (steps (\<lambda>c. \<not> config_call c)) (deploy_upgrader env c n toRemove toAdd)"
  unfolding deploy_upgrader_def deployer_deploy_def executeCall_def
  by (intro steps_intros) simp_all

lemma upgrade_version_steps:
  "obeys (steps (\<lambda>c. \<not> config_call c)) (upgrade_version env c ws idx v ls)"
  unfolding upgrade_version_def
  by (intro steps_intros newest_branch_steps older_branch_steps deploy_upgrader_steps)

lemma upgraders_steps:
  "obeys (steps (\<lambda>c. \<not> config_call c)) (upgraders env c ws idx vs ls)"
proof (induction vs arbitrary: idx ls)
  case Nil
  show ?case by (simp add: steps_ret)
next
  case (Cons v vs)
  show ?case
    unfolding upgraders.simps
    by (rule steps_bnd) (rule upgrade_version_steps, rule Cons.IH)
qed

lemma publish_version_steps:
  "obeys (steps (\<lambda>c. \<not> config_call c)) (publish_version env c ws)"
  unfolding publish_version_def versionUploader_load_def versionUploader_upload_def
  by (intro steps_intros upgraders_steps) simp_all

lemma publish_config_steps:
  "obeys (steps (\<lambda>c. \<not> upgrader_deploy c \<and> \<not> version_call c))
     (publish_config env config a r m t mr)"
  unfolding publish_config_def Let_def updateModuleAddresses_def updateInfrastructureAddresses_def
    updateGitHash_def execSync_def configurator_save_def abiUploader_upload_all_def
  by (intro steps_intros) simp_all

lemma deployment_steps: "obeys (steps (\<lambda>_. True)) (deployment env network c)"
  unfolding deployment_def Let_def
  by (intro steps_intros
        steps_weaken [OF deploy_infrastructure_plain]
        steps_weaken [OF deploy_modules_plain]
        steps_weaken [OF publish_config_steps]
        steps_weaken [OF register_modules_plain]
        steps_weaken [OF publish_version_steps]) simp_all

lemma deploy_steps: "obeys (steps (\<lambda>_. True)) (deploy env network)"
  unfolding deploy_def
  by (intro steps_intros deployment_steps
        steps_weaken [OF warn_network_plain]
        steps_weaken [OF setup_context_plain]) simp_all

lemma fail_stop_index:
  assumes "fail_stop evs out" and "i < length evs" and "snd (evs ! i) = Some e"
  shows "Suc i = length evs \<and> out = Some e"
proof -
  have last: "Suc i = length evs"
  proof (rule ccontr)
    assume "Suc i \<noteq> length evs"
    with assms(2) have "i < length (butlast evs)" by simp
    then have "butlast evs ! i \<in> set (butlast evs)" by (rule nth_mem)
    moreover from \<open>i < length (butlast evs)\<close> have "butlast evs ! i = evs ! i"
      by (simp add: nth_butlast)
    ultimately have "snd (evs ! i) = None"
      using assms(1) by (simp add: fail_stop_def)
    with assms(3) show False by simp
  qed
  from assms(2) have ne: "evs \<noteq> []" by auto
  from last have "i = length evs - 1" by simp
  with ne have "last evs = evs ! i" by (simp add: last_conv_nth)
  note ne this
  with assms(1,3) have "out = Some e"
    by (auto simp: fail_stop_def)
  with last show ?thesis by simp
qed

lemma quiet_before:
  assumes m: "obeys (steps p) m"
      and f: "\<And>x. obeys Q (f x)"
      and err: "\<And>evs e. \<forall>ev \<in> set evs. p (fst ev) \<Longrightarrow> Q evs (Some e)"
      and seq: "\<And>evs evs' out. \<forall>ev \<in> set evs. p (fst ev) \<Longrightarrow> Q evs' out \<Longrightarrow> Q (evs @ evs') out"
  shows "obeys Q (bnd m f)"
  using m f
proof (rule obeys_bnd)
  show "steps p evs (Some e) \<Longrightarrow> Q evs (Some e)" for evs e
    by (rule err) (simp add: steps_def)
  show "steps p evs None \<Longrightarrow> Q evs' out \<Longrightarrow> Q (evs @ evs') out" for evs evs' out
    by (rule seq) (simp_all add: steps_def)
qed

lemma quiet_after:
  assumes m: "obeys Q m"
      and f: "\<And>x. obeys (steps p) (f x)"
      and seq: "\<And>evs evs' out. Q evs None \<Longrightarrow> \<forall>ev \<in> set evs'. p (fst ev) \<Longrightarrow> Q (evs @ evs') out"
  shows "obeys Q (bnd m f)"
  using m f
proof (rule obeys_bnd)
  show "Q evs (Some e) \<Longrightarrow> Q evs (Some e)" for evs e .
  show "Q evs None \<Longrightarrow> steps p evs' out \<Longrightarrow> Q (evs @ evs') out" for evs evs' out
    by (rule seq) (simp_all add: steps_def)
qed

lemma config_events_quiet:
  "\<forall>ev \<in> set evs. \<not> config_call (fst ev) \<Longrightarrow> config_events evs = []"
  by (simp add: config_events_def)

lemma config_events_append: "config_events (evs @ evs') = config_events evs @ config_events evs'"
  by (simp add: config_events_def)

lemma saved_last_early:
  "\<forall>ev \<in> set evs. \<not> config_call (fst ev) \<Longrightarrow> saved_last evs (Some e)"
  by (simp add: saved_last_def config_events_quiet)

lemma saved_last_before:
  "\<forall>ev \<in> set evs. \<not> config_call (fst ev) \<Longrightarrow> saved_last evs' out \<Longrightarrow> saved_last (evs @ evs') out"
  by (simp add: saved_last_def config_events_append config_events_quiet)

lemma saved_last_after:
  assumes "saved_last evs None" and "\<forall>ev \<in> set evs'. \<not> config_call (fst ev)"
  shows "saved_last (evs @ evs') out"
proof -
  from assms(1) obtain xs ys h where
    "config_events evs =
       [(UpdateModuleAddresses xs, None), (UpdateInfrastructureAddresses ys, None),
        (UpdateGitHash h, None), (ConfigSave, None)]"
    unfolding saved_last_def by blast
  with assms(2) have "config_events (evs @ evs') =
       [(UpdateModuleAddresses xs, None), (UpdateInfrastructureAddresses ys, None),
        (UpdateGitHash h, None), (ConfigSave, None)]"
    by (simp add: config_events_append config_events_quiet)
  then show ?thesis
    unfolding saved_last_def by (metis prefix_order.order_refl)
qed

lemma publish_config_saved_last: "obeys saved_last (publish_config env config a r m t mr)"
  unfolding obeys_def
proof
  fix s :: "'a state"
  obtain r1 w1 where e1: "ask_string env (ExecSync ''git rev-parse HEAD'') (world s) = (r1, w1)"
    by (cases "ask_string env (ExecSync ''git rev-parse HEAD'') (world s)")
  obtain r2 w2 where e2: "ask_unit env ConfigSave w1 = (r2, w2)"
    by (cases "ask_unit env ConfigSave w1")
  obtain r3 w3 where e3: "ask_unit env (AbiUploadAll [(a, ''modules''), (r, ''modules''),
       (m, ''modules''), (t, ''modules''), (mr, ''contracts'')]) w2 = (r3, w3)"
    by (cases "ask_unit env (AbiUploadAll [(a, ''modules''), (r, ''modules''),
       (m, ''modules''), (t, ''modules''), (mr, ''contracts'')]) w2")
  show "\<exists>evs. trace (snd (publish_config env config a r m t mr s)) = trace s @ evs
          \<and> saved_last evs (outcome (fst (publish_config env config a r m t mr s)))"
    using e1 e2 e3
    by (cases r1; cases r2; cases r3)
       (simp_all add: publish_config_def prims Let_def saved_last_def config_events_def)
qed


lemma tail_steps:
  "obeys (steps (\<lambda>c. \<not> config_call c))
     (bnd (register_modules env c ws) (\<lambda>_. publish_version env c ws))"
  by (intro steps_bnd steps_weaken [OF register_modules_plain] publish_version_steps)
     (simp add: plain_def)

lemma no_config_infrastructure:
  "obeys (steps (\<lambda>c. \<not> config_call c)) (deploy_infrastructure env c)"
  by (rule steps_weaken [OF deploy_infrastructure_plain]) (simp add: plain_def)

lemma no_config_modules:
  "obeys (steps (\<lambda>c. \<not> config_call c)) (deploy_modules env network c a b)"
  by (rule steps_weaken [OF deploy_modules_plain]) (simp add: plain_def)

lemma no_config_warn: "obeys (steps (\<lambda>c. \<not> config_call c)) (warn_network network)"
  by (rule steps_weaken [OF warn_network_plain]) (simp add: plain_def)

lemma no_config_setup: "obeys (steps (\<lambda>c. \<not> config_call c)) (setup_context env network)"
  by (rule steps_weaken [OF setup_context_plain]) (simp add: plain_def)

lemma saved_last_then:
  assumes "obeys (steps (\<lambda>c. \<not> config_call c)) m" and "\<And>x. obeys saved_last (f x)"
  shows "obeys saved_last (bnd m f)"
  using assms
  by (rule quiet_before) (simp_all add: saved_last_early saved_last_before)

lemma deployment_saved_last: "obeys saved_last (deployment env network c)"
  unfolding deployment_def Let_def
  apply (rule saved_last_then [OF no_config_infrastructure])
  apply (rule obeys_case_prod)
  apply (rule saved_last_then [OF no_config_modules])
  apply (rule obeys_case_prod)+
  apply (rule quiet_after [OF publish_config_saved_last tail_steps])
  apply (rule saved_last_after)
   apply assumption+
  done

lemma deploy_saved_last: "obeys saved_last (deploy env network)"
  unfolding deploy_def
  by (intro saved_last_then no_config_warn no_config_setup deployment_saved_last)

subsection \<open>The sample runs of \<open>deploy\<close>\<close>

lemma demo_deploy_kovan: "deploy (demo_env 1000 [v15]) ''kovan'' start = (Inr (), demo_done)"
  by (simp add: prims script demo demo_done_def Let_def assign_def)

lemma demo_deploy_test: "deploy (demo_env 1000 [v15]) ''test'' start = (Inr (), demo_done_test)"
  by (simp add: prims script demo demo_done_test_def Let_def assign_def)

lemma demo_deploy_empty: "deploy (demo_env 1000 []) ''kovan'' start = (Inr (), demo_done_empty)"
  by (simp add: prims script demo demo_done_empty_def Let_def assign_def)

subsection \<open>The last phase\<close>

lemma bnd_ret_right: "bnd m ret = m"
  by (rule ext) (auto simp: bnd_def ret_def split: prod.splits sum.splits)

lemma bnd_perform_cong:
  fixes ask :: "call \<Rightarrow> 'w \<Rightarrow> (error + 'a) \<times> 'w"
  assumes "\<And>x w w'. ask c w = (Inr x, w') \<Longrightarrow> f x = g x"
  shows "bnd (perform ask c) f = bnd (perform ask c) g"
proof (rule ext)
  fix s :: "'w state"
  obtain r w' where a: "ask c (world s) = (r, w')" by (cases "ask c (world s)")
  show "bnd (perform ask c) f s = bnd (perform ask c) g s"
  proof (cases r)
    case (Inl e)
    with a show ?thesis by (simp add: bnd_def perform_def)
  next
    case (Inr x)
    with a assms [of "world s" x w'] show ?thesis by (simp add: bnd_def perform_def)
  qed
qed

lemma upgraders_Nil: "upgraders env c ws idx [] = ret"
  by (rule ext) simp

lemma upgraders_single:
  "upgraders env c ws 0 [v] ls =
     bnd (newest_branch env ws v ls) (\<lambda>(toAdd, toRemove, ls').
     bnd (deploy_upgrader env c (upgrader_name v ls') toRemove toAdd) (\<lambda>_.
     ret ls'))"
  by (simp add: upgraders_Nil bnd_ret_right upgrade_version_def)

lemma publish_version_single_pass:
  assumes "loads_at_most env"
  shows "publish_version env c ws = single_pass env c ws"
  unfolding publish_version_def single_pass_def versionUploader_load_def
proof (rule bnd_perform_cong)
  fix vs w w'
  assume "ask_versions env (VersionLoad BACKWARD_COMPATIBILITY) w = (Inr vs, w')"
  with assms have "length vs \<le> 1"
    unfolding loads_at_most_def BACKWARD_COMPATIBILITY_def by blast
  then consider "vs = []" | v where "vs = [v]"
    by (cases vs) auto
  then have "upgraders env c ws 0 vs initial_loop_state =
        (case vs of
            [] \<Rightarrow> ret initial_loop_state
          | v # _ \<Rightarrow>
              bnd (newest_branch env ws v initial_loop_state) (\<lambda>(toAdd, toRemove, ls').
              bnd (deploy_upgrader env c (upgrader_name v ls') toRemove toAdd) (\<lambda>_.
              ret ls')))"
  proof cases
    case 1
    then show ?thesis by (simp add: ret_def fun_eq_iff)
  next
    case 2
    then show ?thesis by (simp only: upgraders_single list.case)
  qed
  then show "bnd (upgraders env c ws 0 vs initial_loop_state)
               (\<lambda>ls. versionUploader_upload env (ls_newVersion ls))
           = bnd (case vs of
            [] \<Rightarrow> ret initial_loop_state
          | v # _ \<Rightarrow>
              bnd (newest_branch env ws v initial_loop_state) (\<lambda>(toAdd, toRemove, ls').
              bnd (deploy_upgrader env c (upgrader_name v ls') toRemove toAdd) (\<lambda>_.
              ret ls'))) (\<lambda>ls. versionUploader_upload env (ls_newVersion ls))"
    by simp
qed

lemma publish_version_nothing:
  assumes "loads_nothing env"
  shows "publish_version env c ws =
         bnd (versionUploader_load env BACKWARD_COMPATIBILITY)
           (\<lambda>_. versionUploader_upload env empty_version)"
  unfolding publish_version_def versionUploader_load_def
proof (rule bnd_perform_cong)
  fix vs w w'
  assume "ask_versions env (VersionLoad BACKWARD_COMPATIBILITY) w = (Inr vs, w')"
  with assms have "vs = []"
    unfolding loads_nothing_def by blast
  then show "bnd (upgraders env c ws 0 vs initial_loop_state)
               (\<lambda>ls. versionUploader_upload env (ls_newVersion ls))
           = versionUploader_upload env empty_version"
    by (simp add: fun_eq_iff bnd_def ret_def initial_loop_state_def)
qed


lemma upgrader_deploys_quiet:
  "\<forall>ev \<in> set evs. \<not> upgrader_deploy (fst ev) \<Longrightarrow> upgrader_deploys evs = 0"
  by (simp add: upgrader_deploys_def)

lemma upgrader_deploys_append:
  "upgrader_deploys (evs @ evs') = upgrader_deploys evs + upgrader_deploys evs'"
  by (simp add: upgrader_deploys_def)

lemma no_upgrader_plain:
  assumes "obeys (steps plain) m"
  shows "obeys (steps (\<lambda>c. \<not> upgrader_deploy c \<and> \<not> version_call c)) m"
  using assms by (rule steps_weaken) (simp add: plain_def)

text \<open>A property that holds of every quiet beginning and is kept when a quiet beginning is
  put in front holds of \<open>deploy\<close> as soon as it holds of its last phase.\<close>

lemma deploy_by_last_phase:
  assumes early: "\<And>evs e. \<forall>ev \<in> set evs. \<not> upgrader_deploy (fst ev) \<and> \<not> version_call (fst ev)
                    \<Longrightarrow> Q evs (Some e)"
      and seq: "\<And>evs evs' out. \<forall>ev \<in> set evs. \<not> upgrader_deploy (fst ev) \<and> \<not> version_call (fst ev)
                    \<Longrightarrow> Q evs' out \<Longrightarrow> Q (evs @ evs') out"
      and last: "\<And>c ws. obeys Q (publish_version env c ws)"
  shows "obeys Q (deploy env network)"
proof -
  have step: "obeys Q (bnd m f)"
    if "obeys (steps (\<lambda>c. \<not> upgrader_deploy c \<and> \<not> version_call c)) m" "\<And>x. obeys Q (f x)"
    for m :: "('a, 'b) prog" and f :: "'b \<Rightarrow> ('a, unit) prog"
    using that
  proof (rule quiet_before)
    show "\<forall>ev \<in> set evs. \<not> upgrader_deploy (fst ev) \<and> \<not> version_call (fst ev)
            \<Longrightarrow> Q evs (Some e)" for evs e
      by (rule early)
    show "\<forall>ev \<in> set evs. \<not> upgrader_deploy (fst ev) \<and> \<not> version_call (fst ev)
            \<Longrightarrow> Q evs' out \<Longrightarrow> Q (evs @ evs') out" for evs evs' out
      by (rule seq)
  qed
  show ?thesis
    unfolding deploy_def deployment_def Let_def
    by (intro step obeys_case_prod last publish_config_steps
          no_upgrader_plain [OF warn_network_plain]
          no_upgrader_plain [OF setup_context_plain]
          no_upgrader_plain [OF deploy_infrastructure_plain]
          no_upgrader_plain [OF deploy_modules_plain]
          no_upgrader_plain [OF register_modules_plain])
qed

lemma once_then:
  assumes "obeys (steps (\<lambda>c. \<not> upgrader_deploy c)) m" and "\<And>x. obeys at_most_one_upgrader (f x)"
  shows "obeys at_most_one_upgrader (bnd m f)"
  using assms
  by (rule quiet_before)
     (simp_all add: at_most_one_upgrader_def upgrader_deploys_append upgrader_deploys_quiet)

lemma once_after:
  assumes "obeys at_most_one_upgrader m" and "\<And>x. obeys (steps (\<lambda>c. \<not> upgrader_deploy c)) (f x)"
  shows "obeys at_most_one_upgrader (bnd m f)"
  using assms
  by (rule quiet_after)
     (simp add: at_most_one_upgrader_def upgrader_deploys_append upgrader_deploys_quiet)

lemma deploy_upgrader_once:
  "obeys at_most_one_upgrader (deploy_upgrader env c n toRemove toAdd)"
  unfolding deploy_upgrader_def deployer_deploy_def
proof (rule obeys_bnd [where P = "\<lambda>evs out. length evs = 1"
                        and R = "steps (\<lambda>c. \<not> upgrader_deploy c)"])
  show "obeys (\<lambda>evs out. length evs = 1) (perform (ask_wrapper env) cl)" for cl
    by (rule obeys_perform) simp
  show "obeys (steps (\<lambda>c. \<not> upgrader_deploy c))
          (bnd (executeCall env (ctx_multisigExecutor c) (ctx_ModuleRegistryWrapper c)
                  ''registerModule'' [Str (contractAddress x), asciiToBytes32 env n])
             (\<lambda>_. executeCall env (ctx_multisigExecutor c) (ctx_ModuleRegistryWrapper c)
                  ''registerUpgrader'' [Str (contractAddress x), asciiToBytes32 env n]))" for x
    unfolding executeCall_def by (intro steps_intros) simp_all
  have le: "upgrader_deploys evs \<le> 1" if "length evs = 1" for evs
  proof -
    have "upgrader_deploys evs \<le> length evs"
      unfolding upgrader_deploys_def by (rule length_filter_le)
    with that show ?thesis by simp
  qed
  show "length evs = 1 \<Longrightarrow> at_most_one_upgrader evs (Some e)" for evs e
    unfolding at_most_one_upgrader_def by (rule le)
  show "length evs = 1 \<Longrightarrow> steps (\<lambda>c. \<not> upgrader_deploy c) evs' out
          \<Longrightarrow> at_most_one_upgrader (evs @ evs') out" for evs evs' out
    using le [of evs]
    by (simp add: at_most_one_upgrader_def steps_def upgrader_deploys_append
          upgrader_deploys_quiet)
qed

lemma pass_once:
  "obeys at_most_one_upgrader
     (case versions of
        [] \<Rightarrow> ret initial_loop_state
      | v # _ \<Rightarrow>
          bnd (newest_branch env ws v initial_loop_state) (\<lambda>(toAdd, toRemove, ls').
          bnd (deploy_upgrader env c (upgrader_name v ls') toRemove toAdd) (\<lambda>_.
          ret ls')))"
proof (cases versions)
  case Nil
  then show ?thesis
    by (simp add: obeys_ret at_most_one_upgrader_def upgrader_deploys_def)
next
  case (Cons v rest)
  have "obeys at_most_one_upgrader
          (bnd (newest_branch env ws v initial_loop_state) (\<lambda>(toAdd, toRemove, ls').
           bnd (deploy_upgrader env c (upgrader_name v ls') toRemove toAdd) (\<lambda>_.
           ret ls')))"
    by (intro once_then [OF newest_branch_steps] obeys_case_prod
          once_after [OF deploy_upgrader_once] steps_ret)
  with Cons show ?thesis by simp
qed

lemma single_pass_once: "obeys at_most_one_upgrader (single_pass env c ws)"
  unfolding single_pass_def versionUploader_load_def versionUploader_upload_def
  by (intro once_then once_after [OF pass_once] steps_perform) simp_all

lemma empty_upload_last:
  "obeys empty_upload
     (bnd (versionUploader_load env BACKWARD_COMPATIBILITY)
        (\<lambda>_. versionUploader_upload env empty_version))"
  unfolding versionUploader_load_def versionUploader_upload_def
proof (rule obeys_bnd [where P = "\<lambda>evs out. evs = [(VersionLoad BACKWARD_COMPATIBILITY, out)]"
                        and R = "\<lambda>evs out. evs = [(VersionUpload empty_version, out)]"])
  show "obeys (\<lambda>evs out. evs = [(VersionLoad BACKWARD_COMPATIBILITY, out)])
          (perform (ask_versions env) (VersionLoad BACKWARD_COMPATIBILITY))"
    by (rule obeys_perform) simp
  show "obeys (\<lambda>evs out. evs = [(VersionUpload empty_version, out)])
          (perform (ask_unit env) (VersionUpload empty_version))" for x :: "version list"
    by (rule obeys_perform) simp
  show "evs = [(VersionLoad BACKWARD_COMPATIBILITY, Some e)] \<Longrightarrow> empty_upload evs (Some e)"
    for evs e
    by (simp add: empty_upload_def upgrader_deploys_def)
  show "evs = [(VersionLoad BACKWARD_COMPATIBILITY, None)]
          \<Longrightarrow> evs' = [(VersionUpload empty_version, out)]
          \<Longrightarrow> empty_upload (evs @ evs') out" for evs evs' out
    by (simp add: empty_upload_def upgrader_deploys_def)
qed

lemma empty_upload_early:
  assumes "\<forall>ev \<in> set evs. \<not> upgrader_deploy (fst ev) \<and> \<not> version_call (fst ev)"
  shows "empty_upload evs out"
proof -
  from assms have "(VersionLoad BACKWARD_COMPATIBILITY, None) \<notin> set evs"
    by force
  with assms show ?thesis
    by (simp add: empty_upload_def upgrader_deploys_quiet)
qed

lemma empty_upload_before:
  assumes q: "\<forall>ev \<in> set evs. \<not> upgrader_deploy (fst ev) \<and> \<not> version_call (fst ev)"
      and e: "empty_upload evs' out"
  shows "empty_upload (evs @ evs') out"
proof -
  from q have notin: "(VersionLoad BACKWARD_COMPATIBILITY, None) \<notin> set evs"
    by force
  from q e have count: "upgrader_deploys (evs @ evs') = 0"
    by (simp add: empty_upload_def upgrader_deploys_append upgrader_deploys_quiet)
  have "\<exists>pre uploaded.
          evs @ evs' = pre @ [(VersionLoad BACKWARD_COMPATIBILITY, None),
                              (VersionUpload empty_version, uploaded)]"
    if "(VersionLoad BACKWARD_COMPATIBILITY, None) \<in> set (evs @ evs')"
  proof -
    from that notin have "(VersionLoad BACKWARD_COMPATIBILITY, None) \<in> set evs'"
      by simp
    with e obtain pre uploaded where
      "evs' = pre @ [(VersionLoad BACKWARD_COMPATIBILITY, None),
                     (VersionUpload empty_version, uploaded)]"
      unfolding empty_upload_def by blast
    then have "evs @ evs' = (evs @ pre) @ [(VersionLoad BACKWARD_COMPATIBILITY, None),
                     (VersionUpload empty_version, uploaded)]"
      by simp
    then show ?thesis by blast
  qed
  with count show ?thesis
    unfolding empty_upload_def by blast
qed

lemma demo_loads_at_most: "loads_at_most (demo_env k published)"
  unfolding loads_at_most_def demo_env_def answer_def
  by (auto split: if_splits)

lemma demo_loads_nothing: "loads_nothing (demo_env k [])"
  unfolding loads_nothing_def demo_env_def answer_def
  by (auto split: if_splits)

subsection \<open>The events of the loop\<close>

lemma perform_Inr:
  assumes "perform ask c s = (Inr x, s')"
  shows "trace s' = trace s @ [(c, None)]"
  using assms by (auto simp: perform_def outcome_def split: prod.splits)

lemma deploy_upgrader_Inr:
  assumes "deploy_upgrader env c n toRemove toAdd s = (Inr u, s')"
  shows "\<exists>up. trace s' = trace s @ upgrader_events env c n toRemove toAdd up"
proof -
  from assms obtain up s1 s2 where
    1: "perform (ask_wrapper env) (Deploy ''SimpleUpgrader'' (Obj [])
         [contracts (ctx_config c) ''ModuleRegistry'',
          Arr (map (\<lambda>m. Str (address m)) toRemove),
          Arr (map (\<lambda>m. Str (address m)) toAdd)]) s = (Inr up, s1)" and
    2: "perform (ask_unit env) (ExecuteCall (ctx_multisigExecutor c) (ctx_ModuleRegistryWrapper c)
         ''registerModule'' [Str (contractAddress up), asciiToBytes32 env n]) s1 = (Inr (), s2)" and
    3: "perform (ask_unit env) (ExecuteCall (ctx_multisigExecutor c) (ctx_ModuleRegistryWrapper c)
         ''registerUpgrader'' [Str (contractAddress up), asciiToBytes32 env n]) s2 = (Inr u, s')"
    unfolding deploy_upgrader_def deployer_deploy_def executeCall_def bnd_Inr_iff by auto
  from perform_Inr [OF 1] perform_Inr [OF 2] perform_Inr [OF 3]
  have "trace s' = trace s @ upgrader_events env c n toRemove toAdd up"
    by (simp add: upgrader_events_def)
  then show ?thesis ..
qed

lemma upgrade_version_Inr:
  assumes "upgrade_version env c ws idx v ls s = (Inr ls', s')"
  shows "\<exists>toAdd toRemove up.
           (if idx = 0 then newest_branch env ws v ls s else older_branch v ls s)
             = (Inr (toAdd, toRemove, ls'), s)
         \<and> trace s' = trace s @ upgrader_events env c (upgrader_name v ls') toRemove toAdd up"
proof -
  from assms obtain toAdd toRemove ls1 s1 u s2 where
    br: "(if idx = 0 then newest_branch env ws v ls else older_branch v ls) s
           = (Inr (toAdd, toRemove, ls1), s1)" and
    d0: "deploy_upgrader env c (upgrader_name v ls1) toRemove toAdd s1 = (Inr u, s2)" and
    r: "ret ls1 s2 = (Inr ls', s')"
    by (auto simp: upgrade_version_def bnd_Inr_iff)
  from br have s1: "s1 = s"
    by (auto split: if_splits dest: newest_branch_Inr older_branch_Inr)
  from r have ls1: "ls1 = ls'" and "s2 = s'"
    by (simp_all add: ret_def)
  with d0 have d: "deploy_upgrader env c (upgrader_name v ls1) toRemove toAdd s1 = (Inr u, s')"
    by simp
  from deploy_upgrader_Inr [OF d] obtain w where
    "trace s' = trace s1 @ upgrader_events env c (upgrader_name v ls1) toRemove toAdd w" ..
  with br s1 ls1 show ?thesis
    by (cases "idx = 0") auto
qed

lemma upgraders_older_events:
  assumes "0 < idx" and "nv_modules (ls_newVersion ls) = Some target"
      and "upgraders env c ws idx vs ls s = (Inr ls', s')"
  shows "\<exists>ups. length ups = length vs
         \<and> trace s' = trace s @ concat (map2 (\<lambda>v up.
               upgrader_events env c (upgrader_name v ls)
                 (snd (older_diff target v)) (fst (older_diff target v)) up) vs ups)"
  using assms
proof (induction vs arbitrary: idx s)
  case Nil
  then show ?case by (simp add: ret_def)
next
  case (Cons v vs)
  from Cons.prems(3) obtain ls1 s1 where
    one: "upgrade_version env c ws idx v ls s = (Inr ls1, s1)" and
    rest: "upgraders env c ws (Suc idx) vs ls1 s1 = (Inr ls', s')"
    by (auto simp: bnd_Inr_iff)
  from one Cons.prems(1) have ls1: "ls1 = ls" by (rule upgrade_version_older)
  from upgrade_version_Inr [OF one] Cons.prems(1) obtain toAdd toRemove up where
    br: "older_branch v ls s = (Inr (toAdd, toRemove, ls1), s)" and
    t1: "trace s1 = trace s @ upgrader_events env c (upgrader_name v ls1) toRemove toAdd up"
    by auto
  from older_branch_Inr [OF br] Cons.prems(2) have d: "older_diff target v = (toAdd, toRemove)"
    by auto
  from Cons.IH [of "Suc idx" s1] Cons.prems(2) rest ls1 obtain ups where
    l: "length ups = length vs" and
    t2: "trace s' = trace s1 @ concat (map2 (\<lambda>v up.
               upgrader_events env c (upgrader_name v ls)
                 (snd (older_diff target v)) (fst (older_diff target v)) up) vs ups)"
    by auto
  from l t1 t2 d ls1 have
    "length (up # ups) = length (v # vs)
     \<and> trace s' = trace s @ concat (map2 (\<lambda>v up.
               upgrader_events env c (upgrader_name v ls)
                 (snd (older_diff target v)) (fst (older_diff target v)) up) (v # vs) (up # ups))"
    by simp
  then show ?case by blast
qed

lemma upgrader_deploys_events [simp]:
  "upgrader_deploys (upgrader_events env c n toRemove toAdd up) = 1"
  by (simp add: upgrader_deploys_def upgrader_events_def)

lemma upgrader_deploys_older:
  "length ups = length vs \<Longrightarrow>
   upgrader_deploys (concat (map2 (\<lambda>v up. upgrader_events env c (f v) (g v) (h v) up) vs ups))
     = length vs"
proof (induction vs arbitrary: ups)
  case Nil
  then show ?case by (simp add: upgrader_deploys_def)
next
  case (Cons v vs)
  then obtain up ups' where "ups = up # ups'" by (cases ups) auto
  with Cons show ?case by (simp add: upgrader_deploys_append)
qed

lemma demo_newest_diff:
  "newest_diff MODULES_TO_DISABLE MODULES_TO_ENABLE demo_wrappers v15 =
     ([\<lparr>name = ''ApprovedTransfer'', address = ''0xa1''\<rparr>,
         \<lparr>name = ''RecoveryManager'', address = ''0xa2''\<rparr>,
         \<lparr>name = ''MakerV2Manager'', address = ''0xa3''\<rparr>,
         \<lparr>name = ''TransferManager'', address = ''0xa4''\<rparr>], [\<lparr>name = ''UniswapManager'', address = ''0x02''\<rparr>,
         \<lparr>name = ''TransferManager'', address = ''0x03''\<rparr>], demo_target)"
  by (simp add: demo_target_value script demo Let_def)

lemma demo_loop_trace:
  "trace (snd demo_loop) =
     upgrader_events (demo_env 1000 [v15, v14]) demo_ctx ''0xabc_#####'' [\<lparr>name = ''UniswapManager'', address = ''0x02''\<rparr>,
         \<lparr>name = ''TransferManager'', address = ''0x03''\<rparr>] [\<lparr>name = ''ApprovedTransfer'', address = ''0xa1''\<rparr>,
         \<lparr>name = ''RecoveryManager'', address = ''0xa2''\<rparr>,
         \<lparr>name = ''MakerV2Manager'', address = ''0xa3''\<rparr>,
         \<lparr>name = ''TransferManager'', address = ''0xa4''\<rparr>] \<lparr>contractAddress = ''0xnew_SimpleUpgrader'', contractName = ''SimpleUpgrader''\<rparr>
     @ upgrader_events (demo_env 1000 [v15, v14]) demo_ctx ''0xdef_#####''
         [\<lparr>name = ''TokenExchanger'', address = ''0x04''\<rparr>] [\<lparr>name = ''ApprovedTransfer'', address = ''0xa1''\<rparr>,
         \<lparr>name = ''RecoveryManager'', address = ''0xa2''\<rparr>,
         \<lparr>name = ''MakerV2Manager'', address = ''0xa3''\<rparr>,
         \<lparr>name = ''TransferManager'', address = ''0xa4''\<rparr>] \<lparr>contractAddress = ''0xnew_SimpleUpgrader'', contractName = ''SimpleUpgrader''\<rparr>"
  by (simp add: demo_loop_def upgrader_events_def prims script demo Let_def)

subsection \<open>Where the network matters\<close>

lemma deployment_network:
  assumes "(network \<in> set [''test'', ''staging'', ''prod''])
         = (network' \<in> set [''test'', ''staging'', ''prod''])"
  shows "deployment env network = deployment env network'"
proof -
  have "deploy_modules env network c mr tp = deploy_modules env network' c mr tp" for c mr tp
    unfolding deploy_modules_def using assms by simp
  then have dm: "deploy_modules env network = deploy_modules env network'"
    by (intro ext) simp
  show ?thesis
    by (intro ext) (simp only: deployment_def dm)
qed

section \<open>The target module set (C1)\<close>

text \<open>
  C1. When the loop has run over a non-empty list of historical versions, the module list
  stored in \<^verbatim>\<open>newVersion.modules\<close> is the list of the most recent version (index 0)
  without every module whose name is in \<open>MODULES_TO_DISABLE\<close> or \<open>MODULES_TO_ENABLE\<close>,
  followed by the newly deployed modules as (name, address) descriptors; as a set it is the
  historical set minus those names, united with the new modules. On the example of the
  spec (historical A, B, C; B disabled; C among the enabled names; C and D newly deployed)
  the branch yields A\<^verbatim>\<open>@0x1\<close>, C\<^verbatim>\<open>@0x9\<close>, D\<^verbatim>\<open>@0x8\<close>.
\<close>

theorem newest_version_target_modules:
  assumes "upgraders env c ws 0 (v # vs) ls s = (Inr ls', s')"
  shows "\<exists>target.
           nv_modules (ls_newVersion ls') = Some target
         \<and> target = filter (\<lambda>m. name m \<notin> set MODULES_TO_DISABLE \<union> set MODULES_TO_ENABLE) (modules v)
                      @ map module_of ws
         \<and> set target = (set (modules v) - {m. name m \<in> set MODULES_TO_DISABLE \<union> set MODULES_TO_ENABLE})
                          \<union> module_of ` set ws
         \<and> (''C'' \<in> set enable \<longrightarrow> ''A'' \<notin> set enable \<longrightarrow>
              snd (snd (newest_diff [''B''] enable
                 [\<lparr>contractAddress = ''0x9'', contractName = ''C''\<rparr>,
                  \<lparr>contractAddress = ''0x8'', contractName = ''D''\<rparr>]
                 \<lparr>version = x, createdAt = t,
                  modules = [\<lparr>name = ''A'', address = ''0x1''\<rparr>,
                             \<lparr>name = ''B'', address = ''0x2''\<rparr>,
                             \<lparr>name = ''C'', address = ''0x3''\<rparr>],
                  fingerprint = f\<rparr>))
              = [\<lparr>name = ''A'', address = ''0x1''\<rparr>,
                 \<lparr>name = ''C'', address = ''0x9''\<rparr>,
                 \<lparr>name = ''D'', address = ''0x8''\<rparr>])"
proof -
  from upgraders_finalized [OF assms] obtain lower toAdd toRemove target where
    diff: "newest_diff MODULES_TO_DISABLE MODULES_TO_ENABLE ws v = (toAdd, toRemove, target)" and
    mods: "nv_modules (ls_newVersion ls') = Some target"
    by auto
  from diff have target:
    "target = filter (\<lambda>m. name m \<notin> set MODULES_TO_DISABLE \<union> set MODULES_TO_ENABLE) (modules v)
              @ map module_of ws"
    by (auto simp: newest_diff_def Let_def)
  then have "set target = (set (modules v) - {m. name m \<in> set MODULES_TO_DISABLE \<union> set MODULES_TO_ENABLE})
                          \<union> module_of ` set ws"
    by auto
  moreover have "''C'' \<in> set enable \<longrightarrow> ''A'' \<notin> set enable \<longrightarrow>
              snd (snd (newest_diff [''B''] enable
                 [\<lparr>contractAddress = ''0x9'', contractName = ''C''\<rparr>,
                  \<lparr>contractAddress = ''0x8'', contractName = ''D''\<rparr>]
                 \<lparr>version = x, createdAt = t,
                  modules = [\<lparr>name = ''A'', address = ''0x1''\<rparr>,
                             \<lparr>name = ''B'', address = ''0x2''\<rparr>,
                             \<lparr>name = ''C'', address = ''0x3''\<rparr>],
                  fingerprint = f\<rparr>))
              = [\<lparr>name = ''A'', address = ''0x1''\<rparr>,
                 \<lparr>name = ''C'', address = ''0x9''\<rparr>,
                 \<lparr>name = ''D'', address = ''0x8''\<rparr>]"
    by (simp add: newest_diff_def module_of_def Let_def)
  ultimately show ?thesis using mods target by blast
qed

theorem newest_version_target_modules_witness:
  "fst demo_loop = Inr demo_final
   \<and> nv_modules (ls_newVersion demo_final) = Some
       [\<lparr>name = ''GuardianManager'', address = ''0x01''\<rparr>,
        \<lparr>name = ''ApprovedTransfer'', address = ''0xa1''\<rparr>,
        \<lparr>name = ''RecoveryManager'', address = ''0xa2''\<rparr>,
        \<lparr>name = ''MakerV2Manager'', address = ''0xa3''\<rparr>,
        \<lparr>name = ''TransferManager'', address = ''0xa4''\<rparr>]
   \<and> [\<lparr>name = ''GuardianManager'', address = ''0x01''\<rparr>,
       \<lparr>name = ''ApprovedTransfer'', address = ''0xa1''\<rparr>,
       \<lparr>name = ''RecoveryManager'', address = ''0xa2''\<rparr>,
       \<lparr>name = ''MakerV2Manager'', address = ''0xa3''\<rparr>,
       \<lparr>name = ''TransferManager'', address = ''0xa4''\<rparr>]
     = filter (\<lambda>m. name m \<notin> set MODULES_TO_DISABLE \<union> set MODULES_TO_ENABLE) (modules v15)
         @ map module_of demo_wrappers
   \<and> ''C'' \<in> set [''C'', ''D''] \<and> ''A'' \<notin> set [''C'', ''D'']
   \<and> snd (snd (newest_diff [''B''] [''C'', ''D'']
                 [\<lparr>contractAddress = ''0x9'', contractName = ''C''\<rparr>,
                  \<lparr>contractAddress = ''0x8'', contractName = ''D''\<rparr>]
                 \<lparr>version = ''1.0.0'', createdAt = 0,
                  modules = [\<lparr>name = ''A'', address = ''0x1''\<rparr>,
                             \<lparr>name = ''B'', address = ''0x2''\<rparr>,
                             \<lparr>name = ''C'', address = ''0x3''\<rparr>],
                  fingerprint = ''0x0''\<rparr>))
              = [\<lparr>name = ''A'', address = ''0x1''\<rparr>,
                 \<lparr>name = ''C'', address = ''0x9''\<rparr>,
                 \<lparr>name = ''D'', address = ''0x8''\<rparr>]"
proof -
  have mods: "nv_modules (ls_newVersion demo_final) = Some
       [\<lparr>name = ''GuardianManager'', address = ''0x01''\<rparr>,
        \<lparr>name = ''ApprovedTransfer'', address = ''0xa1''\<rparr>,
        \<lparr>name = ''RecoveryManager'', address = ''0xa2''\<rparr>,
        \<lparr>name = ''MakerV2Manager'', address = ''0xa3''\<rparr>,
        \<lparr>name = ''TransferManager'', address = ''0xa4''\<rparr>]"
    by (simp add: demo_final_def)
  have names: "''C'' \<in> set [''C'', ''D'']" "''A'' \<notin> set [''C'', ''D'']"
    by simp_all
  from newest_version_target_modules
         [OF demo_loop_run, of "[''C'', ''D'']" "''1.0.0''" 0 "''0x0''"]
  obtain target where
    "nv_modules (ls_newVersion demo_final) = Some target"
    "target = filter (\<lambda>m. name m \<notin> set MODULES_TO_DISABLE \<union> set MODULES_TO_ENABLE) (modules v15)
                @ map module_of demo_wrappers"
    "''C'' \<in> set [''C'', ''D''] \<longrightarrow> ''A'' \<notin> set [''C'', ''D''] \<longrightarrow>
       snd (snd (newest_diff [''B''] [''C'', ''D'']
                 [\<lparr>contractAddress = ''0x9'', contractName = ''C''\<rparr>,
                  \<lparr>contractAddress = ''0x8'', contractName = ''D''\<rparr>]
                 \<lparr>version = ''1.0.0'', createdAt = 0,
                  modules = [\<lparr>name = ''A'', address = ''0x1''\<rparr>,
                             \<lparr>name = ''B'', address = ''0x2''\<rparr>,
                             \<lparr>name = ''C'', address = ''0x3''\<rparr>],
                  fingerprint = ''0x0''\<rparr>))
              = [\<lparr>name = ''A'', address = ''0x1''\<rparr>,
                 \<lparr>name = ''C'', address = ''0x9''\<rparr>,
                 \<lparr>name = ''D'', address = ''0x8''\<rparr>]"
    by blast
  with mods names demo_loop_fst show ?thesis by simp
qed

section \<open>The diff of an older version (C2)\<close>

text \<open>
  C2, as the spec states it, fails on the code: the branch for an older version compares
  addresses only, so a module that the older manifest lists under another name at an
  address of the target is neither added nor removed, and \<open>toAdd\<close> united with the
  version's modules minus \<open>toRemove\<close> is then not the target set of (name, address)
  pairs. The sample loop over \<open>[v15, v14]\<close> shows it.
\<close>

theorem older_version_diff_pairs_counterexample:
  "fst demo_loop = Inr demo_final
   \<and> nv_modules (ls_newVersion demo_final) = Some demo_target
   \<and> older_branch v14 demo_final start =
       (Inr ([\<lparr>name = ''ApprovedTransfer'', address = ''0xa1''\<rparr>,
              \<lparr>name = ''RecoveryManager'', address = ''0xa2''\<rparr>,
              \<lparr>name = ''MakerV2Manager'', address = ''0xa3''\<rparr>,
              \<lparr>name = ''TransferManager'', address = ''0xa4''\<rparr>],
             [\<lparr>name = ''TokenExchanger'', address = ''0x04''\<rparr>],
             demo_final), start)
   \<and> set [\<lparr>name = ''ApprovedTransfer'', address = ''0xa1''\<rparr>,
           \<lparr>name = ''RecoveryManager'', address = ''0xa2''\<rparr>,
           \<lparr>name = ''MakerV2Manager'', address = ''0xa3''\<rparr>,
           \<lparr>name = ''TransferManager'', address = ''0xa4''\<rparr>]
       \<union> (set (modules v14) - set [\<lparr>name = ''TokenExchanger'', address = ''0x04''\<rparr>])
     \<noteq> set demo_target"
proof (intro conjI)
  show "fst demo_loop = Inr demo_final"
    by (rule demo_loop_fst)
  show "nv_modules (ls_newVersion demo_final) = Some demo_target"
    by (simp add: demo_final_def demo_target_value)
  show "older_branch v14 demo_final start =
       (Inr ([\<lparr>name = ''ApprovedTransfer'', address = ''0xa1''\<rparr>,
              \<lparr>name = ''RecoveryManager'', address = ''0xa2''\<rparr>,
              \<lparr>name = ''MakerV2Manager'', address = ''0xa3''\<rparr>,
              \<lparr>name = ''TransferManager'', address = ''0xa4''\<rparr>],
             [\<lparr>name = ''TokenExchanger'', address = ''0x04''\<rparr>],
             demo_final), start)"
    by (simp add: older_branch_def older_diff_def demo_final_def v14_def ret_def Let_def)
  have inside: "\<lparr>name = ''Guardians'', address = ''0x01''\<rparr>
      \<in> set [\<lparr>name = ''ApprovedTransfer'', address = ''0xa1''\<rparr>,
           \<lparr>name = ''RecoveryManager'', address = ''0xa2''\<rparr>,
           \<lparr>name = ''MakerV2Manager'', address = ''0xa3''\<rparr>,
           \<lparr>name = ''TransferManager'', address = ''0xa4''\<rparr>]
       \<union> (set (modules v14) - set [\<lparr>name = ''TokenExchanger'', address = ''0x04''\<rparr>])"
    by (simp add: v14_def)
  have outside: "\<lparr>name = ''Guardians'', address = ''0x01''\<rparr> \<notin> set demo_target"
    by (simp add: demo_target_value)
  show "set [\<lparr>name = ''ApprovedTransfer'', address = ''0xa1''\<rparr>,
           \<lparr>name = ''RecoveryManager'', address = ''0xa2''\<rparr>,
           \<lparr>name = ''MakerV2Manager'', address = ''0xa3''\<rparr>,
           \<lparr>name = ''TransferManager'', address = ''0xa4''\<rparr>]
       \<union> (set (modules v14) - set [\<lparr>name = ''TokenExchanger'', address = ''0x04''\<rparr>])
     \<noteq> set demo_target"
  proof
    assume eq: "set [\<lparr>name = ''ApprovedTransfer'', address = ''0xa1''\<rparr>,
           \<lparr>name = ''RecoveryManager'', address = ''0xa2''\<rparr>,
           \<lparr>name = ''MakerV2Manager'', address = ''0xa3''\<rparr>,
           \<lparr>name = ''TransferManager'', address = ''0xa4''\<rparr>]
       \<union> (set (modules v14) - set [\<lparr>name = ''TokenExchanger'', address = ''0x04''\<rparr>])
     = set demo_target"
    from inside have "\<lparr>name = ''Guardians'', address = ''0x01''\<rparr> \<in> set demo_target"
      unfolding eq .
    with outside show False ..
  qed
qed

text \<open>
  C2, amended. After the loop has run from index 0, \<^verbatim>\<open>newVersion.modules\<close> holds the
  target finalized at index 0, and the branch for an older version \<open>v\<close> computes its diff
  against that target: \<open>toAdd\<close> and \<open>toRemove\<close> are disjoint, the addresses of \<open>toAdd\<close>
  united with the addresses of \<open>v\<close> minus those of \<open>toRemove\<close> are the addresses of the
  target, and the same holds for the (name, address) pairs whenever no address carries one
  name in \<open>v\<close> and another in the target.
\<close>

theorem older_version_diff:
  assumes "upgraders env c ws 0 (v0 # vs) ls s = (Inr ls', s')"
      and "target = snd (snd (newest_diff MODULES_TO_DISABLE MODULES_TO_ENABLE ws v0))"
      and "toAdd = fst (older_diff target v)"
      and "toRemove = snd (older_diff target v)"
  shows "nv_modules (ls_newVersion ls') = Some target
       \<and> older_branch v ls' st = (Inr (toAdd, toRemove, ls'), st)
       \<and> set toAdd \<inter> set toRemove = {}
       \<and> address ` set toAdd \<union> (address ` set (modules v) - address ` set toRemove)
           = address ` set target
       \<and> (names_agree v target
           \<longrightarrow> set toAdd \<union> (set (modules v) - set toRemove) = set target)"
proof (intro conjI)
  from upgraders_finalized [OF assms(1)] assms(2)
  show mods: "nv_modules (ls_newVersion ls') = Some target"
    by auto
  then show "older_branch v ls' st = (Inr (toAdd, toRemove, ls'), st)"
    by (simp add: older_branch_def ret_def assms(3,4) split: prod.splits)
  show "set toAdd \<inter> set toRemove = {}"
    unfolding assms(3,4) by (rule older_diff_disjoint)
  show "address ` set toAdd \<union> (address ` set (modules v) - address ` set toRemove)
          = address ` set target"
    unfolding assms(3,4) by (rule older_diff_addresses)
  show "names_agree v target
           \<longrightarrow> set toAdd \<union> (set (modules v) - set toRemove) = set target"
    unfolding assms(3,4) names_agree_def by (rule impI) (rule older_diff_pairs)
qed

theorem older_version_diff_witness:
  "fst demo_loop = Inr demo_final
   \<and> names_agree v15 demo_target
   \<and> nv_modules (ls_newVersion demo_final) = Some demo_target
   \<and> older_branch v15 demo_final start = (Inr ([\<lparr>name = ''ApprovedTransfer'', address = ''0xa1''\<rparr>,
          \<lparr>name = ''RecoveryManager'', address = ''0xa2''\<rparr>,
          \<lparr>name = ''MakerV2Manager'', address = ''0xa3''\<rparr>,
          \<lparr>name = ''TransferManager'', address = ''0xa4''\<rparr>], [\<lparr>name = ''UniswapManager'', address = ''0x02''\<rparr>,
          \<lparr>name = ''TransferManager'', address = ''0x03''\<rparr>], demo_final), start)
   \<and> set [\<lparr>name = ''ApprovedTransfer'', address = ''0xa1''\<rparr>,
          \<lparr>name = ''RecoveryManager'', address = ''0xa2''\<rparr>,
          \<lparr>name = ''MakerV2Manager'', address = ''0xa3''\<rparr>,
          \<lparr>name = ''TransferManager'', address = ''0xa4''\<rparr>] \<inter> set [\<lparr>name = ''UniswapManager'', address = ''0x02''\<rparr>,
          \<lparr>name = ''TransferManager'', address = ''0x03''\<rparr>] = {}
   \<and> address ` set [\<lparr>name = ''ApprovedTransfer'', address = ''0xa1''\<rparr>,
          \<lparr>name = ''RecoveryManager'', address = ''0xa2''\<rparr>,
          \<lparr>name = ''MakerV2Manager'', address = ''0xa3''\<rparr>,
          \<lparr>name = ''TransferManager'', address = ''0xa4''\<rparr>] \<union> (address ` set (modules v15) - address ` set [\<lparr>name = ''UniswapManager'', address = ''0x02''\<rparr>,
          \<lparr>name = ''TransferManager'', address = ''0x03''\<rparr>])
       = address ` set demo_target
   \<and> set [\<lparr>name = ''ApprovedTransfer'', address = ''0xa1''\<rparr>,
          \<lparr>name = ''RecoveryManager'', address = ''0xa2''\<rparr>,
          \<lparr>name = ''MakerV2Manager'', address = ''0xa3''\<rparr>,
          \<lparr>name = ''TransferManager'', address = ''0xa4''\<rparr>] \<union> (set (modules v15) - set [\<lparr>name = ''UniswapManager'', address = ''0x02''\<rparr>,
          \<lparr>name = ''TransferManager'', address = ''0x03''\<rparr>]) = set demo_target"
proof -
  have same: "names_agree v15 demo_target"
    unfolding names_agree_def demo_target_value v15_def by auto
  have toAdd: "[\<lparr>name = ''ApprovedTransfer'', address = ''0xa1''\<rparr>,
          \<lparr>name = ''RecoveryManager'', address = ''0xa2''\<rparr>,
          \<lparr>name = ''MakerV2Manager'', address = ''0xa3''\<rparr>,
          \<lparr>name = ''TransferManager'', address = ''0xa4''\<rparr>] = fst (older_diff demo_target v15)"
    by (simp add: demo_older_diff)
  have toRemove: "[\<lparr>name = ''UniswapManager'', address = ''0x02''\<rparr>,
          \<lparr>name = ''TransferManager'', address = ''0x03''\<rparr>] = snd (older_diff demo_target v15)"
    by (simp add: demo_older_diff)
  note w = older_version_diff [OF demo_loop_run demo_target_def toAdd toRemove, of start]
  note mods = w [THEN conjunct1]
  note br = w [THEN conjunct2, THEN conjunct1]
  note dj = w [THEN conjunct2, THEN conjunct2, THEN conjunct1]
  note ad = w [THEN conjunct2, THEN conjunct2, THEN conjunct2, THEN conjunct1]
  note pr = w [THEN conjunct2, THEN conjunct2, THEN conjunct2, THEN conjunct2, THEN mp, OF same]
  from demo_loop_fst same mods br dj ad pr show ?thesis
    by (intro conjI)
qed

section \<open>The fingerprint (C3)\<close>

text \<open>
  C3. The fingerprint stored in the new manifest is \<open>versionFingerprint\<close> of the module
  list stored beside it, whatever the run it comes from: two runs that share the hash and
  finalize module lists with the same (name, address) pairs in the same order store the same
  fingerprint, and when the hash follows the order-independent convention the same set of
  pairs is enough.
\<close>

theorem fingerprint_function_of_modules:
  assumes "upgraders env c ws 0 (v # vs) ls s = (Inr ls', s')"
      and "upgraders env2 c2 ws2 0 (v2 # vs2) ls2 s2 = (Inr ls2', s2')"
      and "hash env2 = hash env"
  shows "\<exists>ms ms2.
           nv_modules (ls_newVersion ls') = Some ms
         \<and> nv_modules (ls_newVersion ls2') = Some ms2
         \<and> nv_fingerprint (ls_newVersion ls') = Some (versionFingerprint (hash env) ms)
         \<and> nv_fingerprint (ls_newVersion ls2') = Some (versionFingerprint (hash env) ms2)
         \<and> (map (\<lambda>m. (name m, address m)) ms = map (\<lambda>m. (name m, address m)) ms2
              \<longrightarrow> nv_fingerprint (ls_newVersion ls') = nv_fingerprint (ls_newVersion ls2'))
         \<and> (order_independent (hash env)
              \<longrightarrow> (\<lambda>m. (name m, address m)) ` set ms = (\<lambda>m. (name m, address m)) ` set ms2
              \<longrightarrow> nv_fingerprint (ls_newVersion ls') = nv_fingerprint (ls_newVersion ls2'))"
proof -
  from upgraders_finalized [OF assms(1)] obtain ms where
    m1: "nv_modules (ls_newVersion ls') = Some ms" and
    f1: "nv_fingerprint (ls_newVersion ls') = Some (versionFingerprint (hash env) ms)"
    by auto
  from upgraders_finalized [OF assms(2)] obtain ms2 where
    m2: "nv_modules (ls_newVersion ls2') = Some ms2" and
    f2: "nv_fingerprint (ls_newVersion ls2') = Some (versionFingerprint (hash env) ms2)"
    unfolding assms(3) by auto
  have same_list: "map (\<lambda>m. (name m, address m)) ms = map (\<lambda>m. (name m, address m)) ms2
          \<longrightarrow> nv_fingerprint (ls_newVersion ls') = nv_fingerprint (ls_newVersion ls2')"
    unfolding f1 f2 by (simp add: versionFingerprint_def)
  have same_set: "order_independent (hash env)
          \<longrightarrow> (\<lambda>m. (name m, address m)) ` set ms = (\<lambda>m. (name m, address m)) ` set ms2
          \<longrightarrow> nv_fingerprint (ls_newVersion ls') = nv_fingerprint (ls_newVersion ls2')"
    unfolding f1 f2 by (simp add: versionFingerprint_def order_independent_def)
  from m1 m2 f1 f2 same_list same_set show ?thesis
    by (intro exI [of _ ms] exI [of _ ms2] conjI)
qed

theorem fingerprint_function_of_modules_witness:
  "fst demo_loop = Inr demo_final \<and> fst demo_loop_rev = Inr demo_final_rev
   \<and> hash (demo_env 2000 [v15]) = hash (demo_env 1000 [v15, v14])
   \<and> order_independent (hash (demo_env 1000 [v15, v14]))
   \<and> nv_modules (ls_newVersion demo_final) \<noteq> nv_modules (ls_newVersion demo_final_rev)
   \<and> (\<lambda>m. (name m, address m)) ` set (the (nv_modules (ls_newVersion demo_final)))
       = (\<lambda>m. (name m, address m)) ` set (the (nv_modules (ls_newVersion demo_final_rev)))
   \<and> nv_fingerprint (ls_newVersion demo_final) = nv_fingerprint (ls_newVersion demo_final_rev)"
proof -
  have h: "hash (demo_env 2000 [v15]) = hash (demo_env 1000 [v15, v14])"
    by (simp add: demo_env_def)
  have oi: "order_independent (hash (demo_env 1000 [v15, v14]))"
    by (rule demo_hash_order_independent)
  have sets: "(\<lambda>m. (name m, address m)) ` set (the (nv_modules (ls_newVersion demo_final)))
       = (\<lambda>m. (name m, address m)) ` set (the (nv_modules (ls_newVersion demo_final_rev)))"
    unfolding demo_final_def demo_final_rev_def by auto
  have differ: "nv_modules (ls_newVersion demo_final) \<noteq> nv_modules (ls_newVersion demo_final_rev)"
    unfolding demo_final_def demo_final_rev_def by simp
  from fingerprint_function_of_modules [OF demo_loop_run demo_loop_rev_run h]
  obtain ms ms2 where
    m1: "nv_modules (ls_newVersion demo_final) = Some ms" and
    m2: "nv_modules (ls_newVersion demo_final_rev) = Some ms2" and
    imp: "order_independent (hash (demo_env 1000 [v15, v14]))
              \<longrightarrow> (\<lambda>m. (name m, address m)) ` set ms = (\<lambda>m. (name m, address m)) ` set ms2
              \<longrightarrow> nv_fingerprint (ls_newVersion demo_final)
                  = nv_fingerprint (ls_newVersion demo_final_rev)"
    by (elim exE conjE)
  from sets have "(\<lambda>m. (name m, address m)) ` set ms = (\<lambda>m. (name m, address m)) ` set ms2"
    unfolding m1 m2 by simp
  with imp oi have "nv_fingerprint (ls_newVersion demo_final)
                  = nv_fingerprint (ls_newVersion demo_final_rev)"
    by (elim impE) assumption+
  with demo_loop_fst demo_loop_rev_fst h oi differ sets show ?thesis
    by (intro conjI)
qed

section \<open>Failure of a call (C4)\<close>

text \<open>
  C4. In every run of \<open>deploy\<close>, a call that fails is the last event of the run and its
  error is the result of \<open>deploy\<close>: the error leaves \<open>deploy\<close> at once, no later step
  is taken and nothing is undone. (The five ABI uploads are one jointly awaited call.)
\<close>

theorem deploy_stops_at_failure:
  assumes "deploy env network s = (r, s')"
  shows "\<exists>evs. trace s' = trace s @ evs
           \<and> (\<forall>i < length evs. \<forall>e. snd (evs ! i) = Some e \<longrightarrow> Suc i = length evs \<and> r = Inl e)"
proof -
  from deploy_steps [of env network] assms obtain evs where
    t: "trace s' = trace s @ evs" and fs: "fail_stop evs (outcome r)"
    unfolding obeys_def steps_def by (metis fst_conv snd_conv)
  have "Suc i = length evs \<and> r = Inl e" if "i < length evs" "snd (evs ! i) = Some e" for i e
  proof -
    from fail_stop_index [OF fs that] have "Suc i = length evs" "outcome r = Some e"
      by simp_all
    then show ?thesis by (cases r) (simp_all add: outcome_def)
  qed
  with t show ?thesis by blast
qed

theorem deploy_stops_at_failure_witness:
  "deploy (demo_env 7 [v15]) ''kovan'' start = (Inl (Rejected ''boom''), demo_failed)
   \<and> 7 < length (trace demo_failed)
   \<and> snd (trace demo_failed ! 7) = Some (Rejected ''boom'')
   \<and> Suc 7 = length (trace demo_failed)"
proof -
  have run: "deploy (demo_env 7 [v15]) ''kovan'' start = (Inl (Rejected ''boom''), demo_failed)"
    by (simp add: prims script demo demo_failed_def Let_def)
  from deploy_stops_at_failure [OF run] obtain evs where
    t: "trace demo_failed = trace start @ evs" and
    a: "\<forall>i < length evs. \<forall>e. snd (evs ! i) = Some e
          \<longrightarrow> Suc i = length evs \<and> (Inl (Rejected ''boom'') :: error + unit) = Inl e"
    by blast
  from t have evs: "evs = trace demo_failed"
    by (simp add: start_def)
  have i: "7 < length (trace demo_failed)"
    by (simp add: demo_failed_def)
  have f: "snd (trace demo_failed ! 7) = Some (Rejected ''boom'')"
    by (simp add: demo_failed_def)
  from a [unfolded evs, rule_format, OF i f] have "Suc 7 = length (trace demo_failed)"
    by (rule conjunct1)
  with run i f show ?thesis by (intro conjI)
qed

section \<open>A network outside the allow-list (C5)\<close>

text \<open>
  C5, as the spec states it, fails on the code: after the warning the script does not do the
  same for every network. Line 115 gives the TransferManager the address
  \<^verbatim>\<open>config.modules.TransferManager\<close> on test, staging and prod and the zero address on any
  other network. With the same answers of the collaborators, \<^verbatim>\<open>test\<close> (outside the
  allow-list) and \<^verbatim>\<open>kovan\<close> (on it) deploy the TransferManager with different arguments.
\<close>

theorem network_changes_deployment_counterexample:
  "''test'' \<notin> set [''kovan'', ''kovan-fork'', ''staging'', ''prod'']
   \<and> ''kovan'' \<in> set [''kovan'', ''kovan-fork'', ''staging'', ''prod'']
   \<and> deploy (demo_env 1000 [v15]) ''test'' start = (Inr (), demo_done_test)
   \<and> deploy (demo_env 1000 [v15]) ''kovan'' start = (Inr (), demo_done)
   \<and> trace demo_done_test ! 18 = (Deploy ''TransferManager'' (Obj [])
          [Str ''0xc_ModuleRegistry'', Str ''0xm_TransferStorage'', Str ''0xm_GuardianStorage'',
           Str ''0xc_TokenPriceProvider'', Num 0, Num 0, Str ''1000000000000000000'',
           Str ''0xm_TransferManager''], None)
   \<and> trace demo_done ! 15 = (Deploy ''TransferManager'' (Obj [])
          [Str ''0xc_ModuleRegistry'', Str ''0xm_TransferStorage'', Str ''0xm_GuardianStorage'',
           Str ''0xc_TokenPriceProvider'', Num 0, Num 0, Str ''1000000000000000000'',
           Str ''0x0000000000000000000000000000000000000000''], None)
   \<and> drop 4 (trace demo_done_test) \<noteq> drop 1 (trace demo_done)"
proof (intro conjI)
  show "''test'' \<notin> set [''kovan'', ''kovan-fork'', ''staging'', ''prod'']" by simp
  show "''kovan'' \<in> set [''kovan'', ''kovan-fork'', ''staging'', ''prod'']" by simp
  show "deploy (demo_env 1000 [v15]) ''test'' start = (Inr (), demo_done_test)"
    by (rule demo_deploy_test)
  show "deploy (demo_env 1000 [v15]) ''kovan'' start = (Inr (), demo_done)"
    by (rule demo_deploy_kovan)
  show a: "trace demo_done_test ! 18 = (Deploy ''TransferManager'' (Obj [])
          [Str ''0xc_ModuleRegistry'', Str ''0xm_TransferStorage'', Str ''0xm_GuardianStorage'',
           Str ''0xc_TokenPriceProvider'', Num 0, Num 0, Str ''1000000000000000000'',
           Str ''0xm_TransferManager''], None)"
    by (simp add: demo_done_test_def)
  show b: "trace demo_done ! 15 = (Deploy ''TransferManager'' (Obj [])
          [Str ''0xc_ModuleRegistry'', Str ''0xm_TransferStorage'', Str ''0xm_GuardianStorage'',
           Str ''0xc_TokenPriceProvider'', Num 0, Num 0, Str ''1000000000000000000'',
           Str ''0x0000000000000000000000000000000000000000''], None)"
    by (simp add: demo_done_def)
  show "drop 4 (trace demo_done_test) \<noteq> drop 1 (trace demo_done)"
  proof
    assume eq: "drop 4 (trace demo_done_test) = drop 1 (trace demo_done)"
    have "drop 4 (trace demo_done_test) ! 14 = trace demo_done_test ! 18"
      by (simp add: demo_done_test_def)
    moreover have "drop 1 (trace demo_done) ! 14 = trace demo_done ! 15"
      by (simp add: demo_done_def)
    ultimately have "trace demo_done_test ! 18 = trace demo_done ! 15"
      using eq by simp
    then show False unfolding a b by simp
  qed
qed

text \<open>
  C5, amended. For a network outside the allow-list, \<open>deploy\<close> records the three warning
  lines and then runs the setup and the deployment as it does, without the warning, for a
  network on the allow-list: it does not abort. The deployment depends on the network only
  through line 115, so that it is the deployment of \<^verbatim>\<open>staging\<close> when the network is
  \<^verbatim>\<open>test\<close> and the deployment of \<^verbatim>\<open>kovan\<close> for any other network outside the
  allow-list.
\<close>

theorem unlisted_network_proceeds:
  assumes "network \<notin> set [''kovan'', ''kovan-fork'', ''staging'', ''prod'']"
  shows "deploy env network s =
           bnd (setup_context env network) (deployment env network)
             (s\<lparr>trace := trace s @
                 [(ConsoleWarn ''------------------------------------------------------------------------'', None),
                  (ConsoleWarn (''WARNING: The MakerManagerV2 module is not fully functional on ''
                                @ network), None),
                  (ConsoleWarn ''------------------------------------------------------------------------'', None)]\<rparr>)
       \<and> (\<forall>listed \<in> set [''kovan'', ''kovan-fork'', ''staging'', ''prod''].
             deploy env listed s = bnd (setup_context env listed) (deployment env listed) s)
       \<and> deployment env network
           = deployment env (if network = ''test'' then ''staging'' else ''kovan'')"
proof (intro conjI)
  from assms show "deploy env network s =
           bnd (setup_context env network) (deployment env network)
             (s\<lparr>trace := trace s @
                 [(ConsoleWarn ''------------------------------------------------------------------------'', None),
                  (ConsoleWarn (''WARNING: The MakerManagerV2 module is not fully functional on ''
                                @ network), None),
                  (ConsoleWarn ''------------------------------------------------------------------------'', None)]\<rparr>)"
    by (simp add: deploy_def warn_network_def console_warn_def emit_def bnd_def)
  show "\<forall>listed \<in> set [''kovan'', ''kovan-fork'', ''staging'', ''prod''].
             deploy env listed s = bnd (setup_context env listed) (deployment env listed) s"
    by (simp add: deploy_def warn_network_def bnd_def ret_def)
  show "deployment env network
           = deployment env (if network = ''test'' then ''staging'' else ''kovan'')"
  proof (rule deployment_network)
    from assms show "(network \<in> set [''test'', ''staging'', ''prod''])
         = ((if network = ''test'' then ''staging'' else ''kovan'')
              \<in> set [''test'', ''staging'', ''prod''])"
      by auto
  qed
qed

theorem unlisted_network_proceeds_witness:
  "''test'' \<notin> set [''kovan'', ''kovan-fork'', ''staging'', ''prod'']
   \<and> deploy (demo_env 1000 [v15]) ''test'' start = (Inr (), demo_done_test)
   \<and> take 3 (trace demo_done_test) =
       [(ConsoleWarn ''------------------------------------------------------------------------'', None),
        (ConsoleWarn ''WARNING: The MakerManagerV2 module is not fully functional on test'', None),
        (ConsoleWarn ''------------------------------------------------------------------------'', None)]
   \<and> bnd (setup_context (demo_env 1000 [v15]) ''test'') (deployment (demo_env 1000 [v15]) ''test'')
       (start\<lparr>trace := trace start @
          [(ConsoleWarn ''------------------------------------------------------------------------'', None),
           (ConsoleWarn (''WARNING: The MakerManagerV2 module is not fully functional on ''
                         @ ''test''), None),
           (ConsoleWarn ''------------------------------------------------------------------------'', None)]\<rparr>) = (Inr (), demo_done_test)
   \<and> deployment (demo_env 1000 [v15]) ''test'' = deployment (demo_env 1000 [v15]) ''staging''"
proof -
  have unlisted: "''test'' \<notin> set [''kovan'', ''kovan-fork'', ''staging'', ''prod'']" by simp
  note w = unlisted_network_proceeds [OF unlisted, of "demo_env 1000 [v15]" start]
  from w [THEN conjunct1] demo_deploy_test
  have run: "bnd (setup_context (demo_env 1000 [v15]) ''test'') (deployment (demo_env 1000 [v15]) ''test'')
       (start\<lparr>trace := trace start @
          [(ConsoleWarn ''------------------------------------------------------------------------'', None),
           (ConsoleWarn (''WARNING: The MakerManagerV2 module is not fully functional on ''
                         @ ''test''), None),
           (ConsoleWarn ''------------------------------------------------------------------------'', None)]\<rparr>) = (Inr (), demo_done_test)"
    by (rule subst)
  from w [THEN conjunct2, THEN conjunct2]
  have same: "deployment (demo_env 1000 [v15]) ''test'' = deployment (demo_env 1000 [v15]) ''staging''"
    by simp
  have warned: "take 3 (trace demo_done_test) =
       [(ConsoleWarn ''------------------------------------------------------------------------'', None),
        (ConsoleWarn ''WARNING: The MakerManagerV2 module is not fully functional on test'', None),
        (ConsoleWarn ''------------------------------------------------------------------------'', None)]"
    by (simp add: demo_done_test_def)
  from unlisted demo_deploy_test warned run same show ?thesis
    by (intro conjI)
qed

section \<open>One upgrader for each version (C6)\<close>

text \<open>
  C6. When the loop has run over the historical versions \<open>v0 # vs\<close> and returned, it has
  recorded, version by version, exactly the three events of one upgrader: one deployment of
  \<^verbatim>\<open>SimpleUpgrader\<close> with the address list of that version's \<open>toRemove\<close> and the address
  list of its \<open>toAdd\<close> (the diff of index 0 for \<open>v0\<close>, the diff against the target for
  the older ones), then \<^verbatim>\<open>registerModule\<close> and \<^verbatim>\<open>registerUpgrader\<close>, both under the
  version's fingerprint, an underscore and the fingerprint of the target. The number of
  upgraders deployed is the number of versions.
\<close>

theorem one_upgrader_per_version:
  assumes "upgraders env c ws 0 (v0 # vs) ls s = (Inr ls', s')"
      and "newest_diff MODULES_TO_DISABLE MODULES_TO_ENABLE ws v0 = (toAdd0, toRemove0, target)"
      and "fp = versionFingerprint (hash env) target"
  shows "\<exists>evs up0 ups.
           trace s' = trace s @ evs
         \<and> length ups = length vs
         \<and> evs = upgrader_events env c (fingerprint v0 @ ''_'' @ fp) toRemove0 toAdd0 up0
                 @ concat (map2 (\<lambda>v up.
                     upgrader_events env c (fingerprint v @ ''_'' @ fp)
                       (snd (older_diff target v)) (fst (older_diff target v)) up) vs ups)
         \<and> upgrader_deploys evs = length (v0 # vs)"
proof -
  from assms(1) obtain ls1 s1 where
    one: "upgrade_version env c ws 0 v0 ls s = (Inr ls1, s1)" and
    rest: "upgraders env c ws (Suc 0) vs ls1 s1 = (Inr ls', s')"
    by (auto simp: bnd_Inr_iff)
  from upgrade_version_Inr [OF one] obtain toAdd toRemove up0 where
    br: "newest_branch env ws v0 ls s = (Inr (toAdd, toRemove, ls1), s)" and
    t1: "trace s1 = trace s @ upgrader_events env c (upgrader_name v0 ls1) toRemove toAdd up0"
    by auto
  from newest_branch_Inr [OF br] assms(2,3) have
    d: "toAdd = toAdd0" "toRemove = toRemove0" and
    m: "nv_modules (ls_newVersion ls1) = Some target" and
    f: "ls_fingerprint ls1 = Some fp"
    by auto
  from f have n: "upgrader_name v ls1 = fingerprint v @ ''_'' @ fp" for v
    by (simp add: upgrader_name_def template_def)
  from upgraders_older_events [OF _ m rest] obtain ups where
    l: "length ups = length vs" and
    t2: "trace s' = trace s1 @ concat (map2 (\<lambda>v up.
               upgrader_events env c (upgrader_name v ls1)
                 (snd (older_diff target v)) (fst (older_diff target v)) up) vs ups)"
    by auto
  define evs where "evs = upgrader_events env c (fingerprint v0 @ ''_'' @ fp) toRemove0 toAdd0 up0
                 @ concat (map2 (\<lambda>v up.
                     upgrader_events env c (fingerprint v @ ''_'' @ fp)
                       (snd (older_diff target v)) (fst (older_diff target v)) up) vs ups)"
  from t1 t2 d n have t: "trace s' = trace s @ evs"
    by (simp add: evs_def)
  from l have "upgrader_deploys evs = length (v0 # vs)"
    by (simp add: evs_def upgrader_deploys_append upgrader_deploys_older)
  with t l evs_def show ?thesis by blast
qed

theorem one_upgrader_per_version_witness:
  "fst demo_loop = Inr demo_final
   \<and> newest_diff MODULES_TO_DISABLE MODULES_TO_ENABLE demo_wrappers v15 = ([\<lparr>name = ''ApprovedTransfer'', address = ''0xa1''\<rparr>,
         \<lparr>name = ''RecoveryManager'', address = ''0xa2''\<rparr>,
         \<lparr>name = ''MakerV2Manager'', address = ''0xa3''\<rparr>,
         \<lparr>name = ''TransferManager'', address = ''0xa4''\<rparr>], [\<lparr>name = ''UniswapManager'', address = ''0x02''\<rparr>,
         \<lparr>name = ''TransferManager'', address = ''0x03''\<rparr>], demo_target)
   \<and> ''#####'' = versionFingerprint (hash (demo_env 1000 [v15, v14])) demo_target
   \<and> trace (snd demo_loop) =
       upgrader_events (demo_env 1000 [v15, v14]) demo_ctx ''0xabc_#####'' [\<lparr>name = ''UniswapManager'', address = ''0x02''\<rparr>,
         \<lparr>name = ''TransferManager'', address = ''0x03''\<rparr>] [\<lparr>name = ''ApprovedTransfer'', address = ''0xa1''\<rparr>,
         \<lparr>name = ''RecoveryManager'', address = ''0xa2''\<rparr>,
         \<lparr>name = ''MakerV2Manager'', address = ''0xa3''\<rparr>,
         \<lparr>name = ''TransferManager'', address = ''0xa4''\<rparr>] \<lparr>contractAddress = ''0xnew_SimpleUpgrader'', contractName = ''SimpleUpgrader''\<rparr>
       @ upgrader_events (demo_env 1000 [v15, v14]) demo_ctx ''0xdef_#####''
           [\<lparr>name = ''TokenExchanger'', address = ''0x04''\<rparr>] [\<lparr>name = ''ApprovedTransfer'', address = ''0xa1''\<rparr>,
         \<lparr>name = ''RecoveryManager'', address = ''0xa2''\<rparr>,
         \<lparr>name = ''MakerV2Manager'', address = ''0xa3''\<rparr>,
         \<lparr>name = ''TransferManager'', address = ''0xa4''\<rparr>] \<lparr>contractAddress = ''0xnew_SimpleUpgrader'', contractName = ''SimpleUpgrader''\<rparr>
   \<and> upgrader_deploys (trace (snd demo_loop)) = 2"
proof -
  have fp: "''#####'' = versionFingerprint (hash (demo_env 1000 [v15, v14])) demo_target"
    by (simp add: demo_target_value versionFingerprint_def demo_env_def)
  from one_upgrader_per_version [OF demo_loop_run demo_newest_diff fp]
  obtain evs where
    t: "trace (snd demo_loop) = trace start @ evs" and
    n: "upgrader_deploys evs = length [v15, v14]"
    by (elim exE conjE)
  from t have "evs = trace (snd demo_loop)" by (simp add: start_def)
  with n have "upgrader_deploys (trace (snd demo_loop)) = 2" by simp
  with demo_loop_fst demo_newest_diff fp demo_loop_trace show ?thesis
    by (intro conjI)
qed

section \<open>The configuration is saved last (C7)\<close>

text \<open>
  C7. In every run of \<open>deploy\<close> the configurator's events are, in this order, an initial
  part of: \<^verbatim>\<open>updateModuleAddresses\<close>, \<^verbatim>\<open>updateInfrastructureAddresses\<close>,
  \<^verbatim>\<open>updateGitHash\<close>, \<^verbatim>\<open>save\<close>. So the configuration is saved at most once, after
  every update of it, nothing updates it after the save, and a run that completes has made
  the three updates and the save.
\<close>

theorem configuration_saved_last:
  assumes "deploy env network s = (r, s')"
  shows "\<exists>evs xs ys h saved.
           trace s' = trace s @ evs
         \<and> prefix (config_events evs)
             [(UpdateModuleAddresses xs, None), (UpdateInfrastructureAddresses ys, None),
              (UpdateGitHash h, None), (ConfigSave, saved)]
         \<and> (r = Inr () \<longrightarrow>
              config_events evs =
                [(UpdateModuleAddresses xs, None), (UpdateInfrastructureAddresses ys, None),
                 (UpdateGitHash h, None), (ConfigSave, None)])"
proof -
  from deploy_saved_last [of env network] assms obtain evs where
    t: "trace s' = trace s @ evs" and sl: "saved_last evs (outcome r)"
    unfolding obeys_def by (metis fst_conv snd_conv)
  from sl obtain xs ys h saved where
    p: "prefix (config_events evs)
          [(UpdateModuleAddresses xs, None), (UpdateInfrastructureAddresses ys, None),
           (UpdateGitHash h, None), (ConfigSave, saved)]" and
    f: "outcome r = None \<longrightarrow>
           config_events evs =
             [(UpdateModuleAddresses xs, None), (UpdateInfrastructureAddresses ys, None),
              (UpdateGitHash h, None), (ConfigSave, None)]"
    unfolding saved_last_def by (elim exE conjE)
  have full: "config_events evs =
             [(UpdateModuleAddresses xs, None), (UpdateInfrastructureAddresses ys, None),
              (UpdateGitHash h, None), (ConfigSave, None)]" if "r = Inr ()"
  proof -
    from that have "outcome r = None" by (simp add: outcome_def)
    with f show ?thesis by (rule mp)
  qed
  show ?thesis
  proof (intro exI conjI impI)
    show "trace s' = trace s @ evs" by (rule t)
    show "prefix (config_events evs)
          [(UpdateModuleAddresses xs, None), (UpdateInfrastructureAddresses ys, None),
           (UpdateGitHash h, None), (ConfigSave, saved)]" by (rule p)
    show "config_events evs =
             [(UpdateModuleAddresses xs, None), (UpdateInfrastructureAddresses ys, None),
              (UpdateGitHash h, None), (ConfigSave, None)]" if "r = Inr ()"
      using that by (rule full)
  qed
qed

theorem configuration_saved_last_witness:
  "deploy (demo_env 1000 [v15]) ''kovan'' start = (Inr (), demo_done)
   \<and> config_events (trace demo_done) =
       [(UpdateModuleAddresses
           [(''ApprovedTransfer'', Str ''0xnew_ApprovedTransfer''),
            (''RecoveryManager'', Str ''0xnew_RecoveryManager''),
            (''MakerV2Manager'', Str ''0xnew_MakerV2Manager''),
            (''TransferManager'', Str ''0xnew_TransferManager'')], None),
        (UpdateInfrastructureAddresses [(''MakerRegistry'', Str ''0xnew_MakerRegistry'')], None),
        (UpdateGitHash ''abc'', None),
        (ConfigSave, None)]"
proof -
  from configuration_saved_last [OF demo_deploy_kovan] obtain evs xs ys h where
    t: "trace demo_done = trace start @ evs" and
    f: "(Inr () :: error + unit) = Inr () \<longrightarrow>
          config_events evs =
            [(UpdateModuleAddresses xs, None), (UpdateInfrastructureAddresses ys, None),
             (UpdateGitHash h, None), (ConfigSave, None)]"
    by (elim exE conjE)
  from t have evs: "evs = trace demo_done" by (simp add: start_def)
  from f have "config_events (trace demo_done) =
            [(UpdateModuleAddresses xs, None), (UpdateInfrastructureAddresses ys, None),
             (UpdateGitHash h, None), (ConfigSave, None)]"
    unfolding evs by simp
  moreover have "config_events (trace demo_done) =
       [(UpdateModuleAddresses
           [(''ApprovedTransfer'', Str ''0xnew_ApprovedTransfer''),
            (''RecoveryManager'', Str ''0xnew_RecoveryManager''),
            (''MakerV2Manager'', Str ''0xnew_MakerV2Manager''),
            (''TransferManager'', Str ''0xnew_TransferManager'')], None),
        (UpdateInfrastructureAddresses [(''MakerRegistry'', Str ''0xnew_MakerRegistry'')], None),
        (UpdateGitHash ''abc'', None),
        (ConfigSave, None)]"
    by (simp add: demo_done_def config_events_def)
  ultimately show ?thesis using demo_deploy_kovan by (intro conjI)
qed

section \<open>One historical version at most (C8)\<close>

text \<open>
  C8. When \<^verbatim>\<open>versionUploader.load(N)\<close> answers at most \<open>N\<close> manifests, with
  \<open>BACKWARD_COMPATIBILITY = 1\<close> the last phase of \<open>deploy\<close> is the program in which the
  loop takes at most one pass, through the branch of index 0, so the branch for older
  versions is never taken; and every run of \<open>deploy\<close> deploys at most one upgrader.
\<close>

theorem at_most_one_upgrader_deployed:
  assumes "loads_at_most env" and "deploy env network s = (r, s')"
  shows "(\<forall>c ws. publish_version env c ws = single_pass env c ws)
       \<and> (\<exists>evs. trace s' = trace s @ evs \<and> upgrader_deploys evs \<le> 1)"
proof
  show single: "\<forall>c ws. publish_version env c ws = single_pass env c ws"
    using assms(1) by (simp add: publish_version_single_pass)
  have "obeys at_most_one_upgrader (deploy env network)"
  proof (rule deploy_by_last_phase)
    show "obeys at_most_one_upgrader (publish_version env c ws)" for c ws
      using single by (simp add: single_pass_once)
  qed (simp_all add: at_most_one_upgrader_def upgrader_deploys_append upgrader_deploys_quiet)
  with assms(2) show "\<exists>evs. trace s' = trace s @ evs \<and> upgrader_deploys evs \<le> 1"
    unfolding obeys_def at_most_one_upgrader_def by (metis snd_conv)
qed

theorem at_most_one_upgrader_deployed_witness:
  "loads_at_most (demo_env 1000 [v15])
   \<and> deploy (demo_env 1000 [v15]) ''kovan'' start = (Inr (), demo_done)
   \<and> upgrader_deploys (trace demo_done) = 1"
proof -
  from at_most_one_upgrader_deployed [OF demo_loads_at_most demo_deploy_kovan]
  obtain evs where "trace demo_done = trace start @ evs" "upgrader_deploys evs \<le> 1"
    by (elim exE conjE)
  then have "upgrader_deploys (trace demo_done) \<le> 1"
    by (simp add: start_def)
  moreover have "upgrader_deploys (trace demo_done) = 1"
    by (simp add: demo_done_def upgrader_deploys_def)
  ultimately show ?thesis
    using demo_loads_at_most demo_deploy_kovan by (intro conjI)
qed

section \<open>The version string (C9)\<close>

text \<open>
  C9. When the loop has run over a non-empty list of historical versions, \<^verbatim>\<open>semver.lt\<close>
  has answered for the version at index 0 against \<^verbatim>\<open>"1.6.0"\<close>, and the version of the new
  manifest is \<^verbatim>\<open>"1.6.0"\<close> when that answer is true and the patch increment of the
  historical version string otherwise.
\<close>

theorem new_version_string:
  assumes "upgraders env c ws 0 (v # vs) ls s = (Inr ls', s')"
  shows "\<exists>lower. semver_lt env (version v) ''1.6.0'' = Inr lower
         \<and> nv_version (ls_newVersion ls')
             = Some (if lower then Some ''1.6.0'' else semver_inc env (version v) ''patch'')"
proof -
  from upgraders_finalized [OF assms] obtain lower toAdd toRemove target where
    lt: "semver_lt env (version v) TARGET_VERSION = Inr lower" and
    ls': "ls' = \<lparr>ls_newVersion = (ls_newVersion ls)
                     \<lparr>nv_version := Some (if lower then Some TARGET_VERSION
                                           else semver_inc env (version v) ''patch''),
                      nv_createdAt := Some (clock env (world s) div 1000),
                      nv_modules := Some target,
                      nv_fingerprint := Some (versionFingerprint (hash env) target)\<rparr>,
                   ls_fingerprint = Some (versionFingerprint (hash env) target)\<rparr>"
    by blast
  have "nv_version (ls_newVersion ls')
          = Some (if lower then Some TARGET_VERSION else semver_inc env (version v) ''patch'')"
    unfolding ls' by simp
  with lt show ?thesis
    unfolding TARGET_VERSION_def by (intro exI [of _ lower] conjI)
qed

theorem new_version_string_witness:
  "fst demo_loop = Inr demo_final
   \<and> semver_lt (demo_env 1000 [v15, v14]) (version v15) ''1.6.0'' = Inr True
   \<and> nv_version (ls_newVersion demo_final) = Some (Some ''1.6.0'')"
proof -
  have lt: "semver_lt (demo_env 1000 [v15, v14]) (version v15) ''1.6.0'' = Inr True"
    unfolding demo_env_def v15_def by simp
  from new_version_string [OF demo_loop_run] obtain lower where
    a: "semver_lt (demo_env 1000 [v15, v14]) (version v15) ''1.6.0'' = Inr lower" and
    b: "nv_version (ls_newVersion demo_final)
          = Some (if lower then Some ''1.6.0''
                  else semver_inc (demo_env 1000 [v15, v14]) (version v15) ''patch'')"
    by blast
  from a have "lower" unfolding lt by simp
  with b have "nv_version (ls_newVersion demo_final) = Some (Some ''1.6.0'')"
    by simp
  with demo_loop_fst lt show ?thesis by (intro conjI)
qed

section \<open>No historical version (C10)\<close>

text \<open>
  C10. When \<^verbatim>\<open>versionUploader.load\<close> answers the empty list, the last phase of \<open>deploy\<close>
  is the load followed at once by the upload of the empty manifest, the object \<^verbatim>\<open>{}\<close>
  without version, createdAt, modules and fingerprint: a run deploys no upgrader, and once
  the load has returned the run ends with that upload.
\<close>

theorem no_version_empty_upload:
  assumes "loads_nothing env" and "deploy env network s = (r, s')"
  shows "(\<forall>c ws. publish_version env c ws =
            bnd (versionUploader_load env BACKWARD_COMPATIBILITY)
              (\<lambda>_. versionUploader_upload env empty_version))
       \<and> (\<exists>evs. trace s' = trace s @ evs
              \<and> upgrader_deploys evs = 0
              \<and> ((VersionLoad BACKWARD_COMPATIBILITY, None) \<in> set evs \<longrightarrow>
                   (\<exists>pre uploaded.
                      evs = pre @ [(VersionLoad BACKWARD_COMPATIBILITY, None),
                                   (VersionUpload empty_version, uploaded)])))"
proof
  show eq: "\<forall>c ws. publish_version env c ws =
            bnd (versionUploader_load env BACKWARD_COMPATIBILITY)
              (\<lambda>_. versionUploader_upload env empty_version)"
    using assms(1) by (simp add: publish_version_nothing)
  have "obeys empty_upload (deploy env network)"
  proof (rule deploy_by_last_phase)
    show "obeys empty_upload (publish_version env c ws)" for c ws
      using eq by (simp add: empty_upload_last)
  qed (simp_all add: empty_upload_early empty_upload_before)
  with assms(2) obtain evs where "trace s' = trace s @ evs" "empty_upload evs (outcome r)"
    unfolding obeys_def by (metis fst_conv snd_conv)
  then show "\<exists>evs. trace s' = trace s @ evs
              \<and> upgrader_deploys evs = 0
              \<and> ((VersionLoad BACKWARD_COMPATIBILITY, None) \<in> set evs \<longrightarrow>
                   (\<exists>pre uploaded.
                      evs = pre @ [(VersionLoad BACKWARD_COMPATIBILITY, None),
                                   (VersionUpload empty_version, uploaded)]))"
    unfolding empty_upload_def by blast
qed

theorem no_version_empty_upload_witness:
  "loads_nothing (demo_env 1000 [])
   \<and> deploy (demo_env 1000 []) ''kovan'' start = (Inr (), demo_done_empty)
   \<and> upgrader_deploys (trace demo_done_empty) = 0
   \<and> (VersionLoad BACKWARD_COMPATIBILITY, None) \<in> set (trace demo_done_empty)
   \<and> drop 26 (trace demo_done_empty) =
       [(VersionLoad BACKWARD_COMPATIBILITY, None),
        (VersionUpload
           \<lparr>nv_version = None, nv_createdAt = None, nv_modules = None, nv_fingerprint = None\<rparr>,
         None)]"
proof -
  from no_version_empty_upload [OF demo_loads_nothing demo_deploy_empty]
  obtain evs where "trace demo_done_empty = trace start @ evs" "upgrader_deploys evs = 0"
    by (elim exE conjE)
  then have count: "upgrader_deploys (trace demo_done_empty) = 0"
    by (simp add: start_def)
  have loaded: "(VersionLoad BACKWARD_COMPATIBILITY, None) \<in> set (trace demo_done_empty)"
    by (simp add: demo_done_empty_def BACKWARD_COMPATIBILITY_def)
  have last: "drop 26 (trace demo_done_empty) =
       [(VersionLoad BACKWARD_COMPATIBILITY, None),
        (VersionUpload
           \<lparr>nv_version = None, nv_createdAt = None, nv_modules = None, nv_fingerprint = None\<rparr>,
         None)]"
    by (simp add: demo_done_empty_def BACKWARD_COMPATIBILITY_def)
  from demo_loads_nothing demo_deploy_empty count loaded last show ?thesis
    by (intro conjI)
qed

end
